theory Spec2Isabelle
  imports Complex_Main "HOL-Library.Log_Nat"
begin

section \<open>Bet.py: enumerations and the outcome key registry\<close>

datatype error = KeyError | IndexError | TypeError | AttributeError
  | ZeroDivisionError | OverflowError

datatype Strategy = MOST_VOTED | HIGH_ODDS | PERCENTAGE | SMART

datatype Condition = GT | LT | GTE | LTE

text \<open>\<open>Condition.name\<close> and the lookup \<open>Condition[name]\<close>, which raises KeyError
  for a string that names no member.\<close>

fun Condition_name :: "Condition \<Rightarrow> string" where
  "Condition_name GT = ''GT''"
| "Condition_name LT = ''LT''"
| "Condition_name GTE = ''GTE''"
| "Condition_name LTE = ''LTE''"

definition Condition_getitem :: "string \<Rightarrow> error + Condition" where
  "Condition_getitem n =
     (if n = ''GT'' then Inr GT
      else if n = ''LT'' then Inr LT
      else if n = ''GTE'' then Inr GTE
      else if n = ''LTE'' then Inr LTE
      else Inl KeyError)"

text \<open>The class \<open>OutcomeKeys\<close>: eight string constants.\<close>

definition PERCENTAGE_USERS :: string where "PERCENTAGE_USERS = ''percentage_users''"
definition ODDS_PERCENTAGE :: string where "ODDS_PERCENTAGE = ''odds_percentage''"
definition ODDS :: string where "ODDS = ''odds''"
definition TOP_POINTS :: string where "TOP_POINTS = ''top_points''"
definition TOTAL_USERS :: string where "TOTAL_USERS = ''total_users''"
definition TOTAL_POINTS :: string where "TOTAL_POINTS = ''total_points''"
definition DECISION_USERS :: string where "DECISION_USERS = ''decision_users''"
definition DECISION_POINTS :: string where "DECISION_POINTS = ''decision_points''"

lemmas OutcomeKeys_defs =
  PERCENTAGE_USERS_def ODDS_PERCENTAGE_def ODDS_def TOP_POINTS_def
  TOTAL_USERS_def TOTAL_POINTS_def DECISION_USERS_def DECISION_POINTS_def

text \<open>The upper-case attributes of the class in the order of \<open>dir(cls)\<close>, which is
  alphabetical, each with its value.\<close>

definition OutcomeKeys_attrs :: "(string \<times> string) list" where
  "OutcomeKeys_attrs =
     [(''DECISION_POINTS'', DECISION_POINTS),
      (''DECISION_USERS'', DECISION_USERS),
      (''ODDS'', ODDS),
      (''ODDS_PERCENTAGE'', ODDS_PERCENTAGE),
      (''PERCENTAGE_USERS'', PERCENTAGE_USERS),
      (''TOP_POINTS'', TOP_POINTS),
      (''TOTAL_POINTS'', TOTAL_POINTS),
      (''TOTAL_USERS'', TOTAL_USERS)]"

text \<open>\<open>OutcomeKeys.search\<close>: the first attribute whose value equals the argument;
  the loop falls off its end, returning None, when there is none. The argument may be
  None (an unset \<open>by\<close>), which equals no string.\<close>

fun search_loop :: "(string \<times> string) list \<Rightarrow> string option \<Rightarrow> string option" where
  "search_loop [] v = None"
| "search_loop ((attr, x) # rest) v =
     (if Some x = v then Some attr else search_loop rest v)"

definition search :: "string option \<Rightarrow> string option" where
  "search v = search_loop OutcomeKeys_attrs v"

text \<open>\<open>getattr(OutcomeKeys, name)\<close> on the constants of the class: a name that is
  not a string raises TypeError, a string that names no attribute raises AttributeError.
  The methods and dunder attributes of the class are not string constants and are not
  part of this model.\<close>

definition getattr_OutcomeKeys :: "string option \<Rightarrow> error + string" where
  "getattr_OutcomeKeys n =
     (case n of
        None \<Rightarrow> Inl TypeError
      | Some a \<Rightarrow> (case map_of OutcomeKeys_attrs a of
                     None \<Rightarrow> Inl AttributeError
                   | Some v \<Rightarrow> Inr v))"

section \<open>FilterCondition\<close>

text \<open>Every constructor argument defaults to None, so every slot is optional. The
  slots by, where and value are named \<open>fc_by\<close>, \<open>fc_where\<close> and \<open>fc_value\<close> here.\<close>

record FilterCondition =
  fc_by :: "string option"
  fc_where :: "Condition option"
  fc_value :: "rat option"

text \<open>The dictionary built by \<open>to_dict\<close> has exactly the keys by, where and value.\<close>

record FilterCondition_dict =
  d_by :: "string option"
  d_where :: string
  d_value :: "rat option"

definition to_dict :: "FilterCondition \<Rightarrow> error + FilterCondition_dict" where
  "to_dict c =
     (case fc_where c of
        None \<Rightarrow> Inl AttributeError
      | Some w \<Rightarrow> Inr \<lparr>d_by = search (fc_by c), d_where = Condition_name w, d_value = fc_value c\<rparr>)"

definition from_dict :: "FilterCondition_dict \<Rightarrow> error + FilterCondition" where
  "from_dict data =
     (case getattr_OutcomeKeys (d_by data) of
        Inl e \<Rightarrow> Inl e
      | Inr b \<Rightarrow> (case Condition_getitem (d_where data) of
                    Inl e \<Rightarrow> Inl e
                  | Inr w \<Rightarrow> Inr \<lparr>fc_by = Some b, fc_where = Some w, fc_value = d_value data\<rparr>))"

section \<open>BetSettings\<close>

record BetSettings =
  strategy :: "Strategy option"
  percentage :: "int option"
  percentage_gap :: "int option"
  max_points :: "int option"
  stealth_mode :: "bool option"
  filter_condition :: "FilterCondition option"

text \<open>Python's truth value of None, the condition that \<open>default\<close> negates.\<close>

definition truth_of_None :: bool where
  "truth_of_None = False"

text \<open>\<open>default\<close>: each line is \<open>self.x = self.x if not None else d\<close>.\<close>

definition default :: "BetSettings \<Rightarrow> BetSettings" where
  "default s =
     s\<lparr>strategy := (if \<not> truth_of_None then strategy s else Some SMART),
       percentage := (if \<not> truth_of_None then percentage s else Some 5),
       percentage_gap := (if \<not> truth_of_None then percentage_gap s else Some 20),
       max_points := (if \<not> truth_of_None then max_points s else Some 50000),
       stealth_mode := (if \<not> truth_of_None then stealth_mode s else Some False)\<rparr>"

section \<open>Python numbers\<close>

text \<open>Errors are values: a computation returns \<open>Inl e\<close> where the Python raises.\<close>

definition bindE :: "error + 'a \<Rightarrow> ('a \<Rightarrow> error + 'b) \<Rightarrow> error + 'b" where
  "bindE m f = (case m of Inl e \<Rightarrow> Inl e | Inr x \<Rightarrow> f x)"

definition require :: "'a option \<Rightarrow> error \<Rightarrow> error + 'a" where
  "require x e = (case x of None \<Rightarrow> Inl e | Some v \<Rightarrow> Inr v)"

definition nth_err :: "'a list \<Rightarrow> nat \<Rightarrow> error + 'a" where
  "nth_err xs i = (if i < length xs then Inr (xs ! i) else Inl IndexError)"

text \<open>A Python float is an IEEE binary64 number; a finite one is modelled by the
  rational it denotes. \<open>fl x\<close> is the binary64 number nearest to the exact value \<open>x\<close>
  (ties to even, 53 bits of precision, gradual underflow below \<open>2 powi (- 1022)\<close>), with
  the exponent not yet bounded from above.\<close>

definition round_even :: "rat \<Rightarrow> int" where
  "round_even x =
     (let f = \<lfloor>x\<rfloor>; d = x - of_int f
      in if d < 1 / 2 then f
         else if 1 / 2 < d then f + 1
         else if even f then f else f + 1)"

definition ilog2 :: "rat \<Rightarrow> int" where
  "ilog2 x =
     (let d = bitlen (fst (quotient_of \<bar>x\<bar>)) - bitlen (snd (quotient_of \<bar>x\<bar>))
      in if 2 powi d \<le> \<bar>x\<bar> then d else d - 1)"

definition ulp_exp :: "rat \<Rightarrow> int" where
  "ulp_exp x = max (ilog2 x - 52) (- 1074)"

definition fl :: "rat \<Rightarrow> rat" where
  "fl x = (if x = 0 then 0
           else of_int (round_even (x / 2 powi ulp_exp x)) * 2 powi ulp_exp x)"

text \<open>The result of rounding leaves the binary64 range, its binary exponent being
  above 1023: the operation gives inf, or raises OverflowError where Python does not
  produce inf.\<close>

definition overflows :: "rat \<Rightarrow> bool" where
  "overflows x = (1024 \<le> ilog2 (fl x))"

text \<open>\<open>float(n)\<close> for an int and the true division of two ints: correctly rounded,
  OverflowError when the result is too large for a float.\<close>

definition py_float :: "rat \<Rightarrow> error + rat" where
  "py_float x = (if overflows x then Inl OverflowError else Inr (fl x))"

definition py_truediv :: "int \<Rightarrow> int \<Rightarrow> error + rat" where
  "py_truediv a b =
     (if b = 0 then Inl ZeroDivisionError else py_float (of_int a / of_int b))"

text \<open>\<open>x / y\<close> on floats: ZeroDivisionError for a zero divisor. A quotient beyond the
  binary64 range is inf in Python, which the rationals do not hold; it is reported as
  OverflowError here.\<close>

definition py_float_div :: "rat \<Rightarrow> rat \<Rightarrow> error + rat" where
  "py_float_div x y = (if y = 0 then Inl ZeroDivisionError else py_float (x / y))"

text \<open>\<open>int(f)\<close> truncates towards zero.\<close>

definition trunc :: "rat \<Rightarrow> int" where
  "trunc x = (if 0 \<le> x then \<lfloor>x\<rfloor> else \<lceil>x\<rceil>)"

text \<open>\<open>int(e)\<close> where \<open>e\<close> is a float product or difference with exact value \<open>x\<close>:
  the operation rounds, an overflow makes it inf, and \<open>int(inf)\<close> raises
  OverflowError.\<close>

definition int_of_float_op :: "rat \<Rightarrow> error + int" where
  "int_of_float_op x = (if overflows x then Inl OverflowError else Inr (trunc (fl x)))"

text \<open>\<open>s.replace(old, new)\<close> for a non-empty \<open>old\<close>: every occurrence, scanning from
  the left; the counter skips the rest of an occurrence already replaced.\<close>

fun replace_from :: "string \<Rightarrow> string \<Rightarrow> nat \<Rightarrow> string \<Rightarrow> string" where
  "replace_from old new k [] = []"
| "replace_from old new (Suc k) (c # cs) = replace_from old new k cs"
| "replace_from old new 0 (c # cs) =
     (if take (length old) (c # cs) = old
      then new @ replace_from old new (length old - 1) cs
      else c # replace_from old new 0 cs)"

definition replace :: "string \<Rightarrow> string \<Rightarrow> string \<Rightarrow> string" where
  "replace s old new = replace_from old new 0 s"

section \<open>The helpers of TwitchChannelPointsMiner.utils\<close>

text \<open>\<open>char_decision_as_index\<close> and \<open>float_round\<close> are imported from the module
  \<open>utils\<close>, which is not among the sources; the functions of Bet take them as
  parameters. The argument of \<open>char_decision_as_index\<close> is the decision's choice, which
  may be None.\<close>

record utils =
  char_decision_as_index :: "string option \<Rightarrow> error + nat"
  float_round :: "rat \<Rightarrow> rat"

section \<open>Bet\<close>

text \<open>An outcome dictionary after \<open>__clear_outcomes\<close>: the whitelisted keys. The
  raw totals and top_points are ints; percentage_users, odds and odds_percentage are the
  int 0 or floats.\<close>

record Outcome =
  o_id :: string
  o_title :: string
  o_color :: string
  o_total_users :: int
  o_total_points :: int
  o_top_points :: int
  o_percentage_users :: rat
  o_odds :: rat
  o_odds_percentage :: rat

text \<open>An outcome of the event payload, as passed to the constructor and to
  \<open>update_outcomes\<close>; \<open>top_predictors\<close> holds the points of each predictor.\<close>

record snapshot =
  s_id :: string
  s_title :: string
  s_color :: string
  s_total_users :: int
  s_total_points :: int
  s_top_predictors :: "int list"

text \<open>The decision dictionary is either empty (None here) or has the three keys
  choice, amount and id.\<close>

record Decision =
  choice :: "string option"
  amount :: int
  d_id :: "string option"

record Bet =
  outcomes :: "Outcome list"
  decision :: "Decision option"
  total_users :: int
  total_points :: int
  settings :: BetSettings

text \<open>\<open>outcome[key]\<close> for a numeric entry. A key that is no string, or a string
  that is no key of the dictionary, raises KeyError. The entries title, color and id are
  strings, which no comparison of this module reads; asking for them is reported as
  TypeError, the error of comparing a string with a number.\<close>

definition getitem :: "Outcome \<Rightarrow> string option \<Rightarrow> error + rat" where
  "getitem oc key =
     (if key = Some TOTAL_USERS then Inr (of_int (o_total_users oc))
      else if key = Some TOTAL_POINTS then Inr (of_int (o_total_points oc))
      else if key = Some TOP_POINTS then Inr (of_int (o_top_points oc))
      else if key = Some PERCENTAGE_USERS then Inr (o_percentage_users oc)
      else if key = Some ODDS then Inr (o_odds oc)
      else if key = Some ODDS_PERCENTAGE then Inr (o_odds_percentage oc)
      else if key = Some ''title'' \<or> key = Some ''color'' \<or> key = Some ''id''
      then Inl TypeError
      else Inl KeyError)"

text \<open>\<open>__clear_outcomes\<close> on a payload outcome: only the whitelisted keys stay, and
  the four derived keys, absent from the payload, are set to 0.\<close>

definition clear_outcome :: "snapshot \<Rightarrow> Outcome" where
  "clear_outcome s =
     \<lparr>o_id = s_id s, o_title = s_title s, o_color = s_color s,
      o_total_users = s_total_users s, o_total_points = s_total_points s,
      o_top_points = 0, o_percentage_users = 0, o_odds = 0, o_odds_percentage = 0\<rparr>"

text \<open>\<open>Bet.__init__\<close>.\<close>

definition Bet_init :: "snapshot list \<Rightarrow> BetSettings \<Rightarrow> Bet" where
  "Bet_init snaps st =
     \<lparr>outcomes = map clear_outcome snaps, decision = None,
      total_users = 0, total_points = 0, settings = st\<rparr>"

subsection \<open>update_outcomes\<close>

text \<open>The first loop, over \<open>range(0, len(self.outcomes))\<close>: the raw totals, and the
  largest points of the top predictors when there are any.\<close>

definition ingest_one :: "Outcome \<Rightarrow> snapshot \<Rightarrow> Outcome" where
  "ingest_one oc s =
     (let oc' = oc\<lparr>o_total_users := s_total_users s, o_total_points := s_total_points s\<rparr>
      in if s_top_predictors s \<noteq> []
         then oc'\<lparr>o_top_points := hd (rev (sort (s_top_predictors s)))\<rparr>
         else oc')"

fun ingest :: "snapshot list \<Rightarrow> nat list \<Rightarrow> Outcome list \<Rightarrow> error + Outcome list" where
  "ingest snaps [] os = Inr os"
| "ingest snaps (index # rest) os =
     bindE (nth_err snaps index) (\<lambda>s.
       ingest snaps rest (os[index := ingest_one (os ! index) s]))"

text \<open>The second loop, run when the guard holds.\<close>

fun derive :: "utils \<Rightarrow> int \<Rightarrow> int \<Rightarrow> nat list \<Rightarrow> Outcome list \<Rightarrow> error + Outcome list" where
  "derive u tu tp [] os = Inr os"
| "derive u tu tp (index # rest) os =
     bindE (py_truediv (100 * o_total_users (os ! index)) tu) (\<lambda>p.
     bindE (py_truediv tp (o_total_points (os ! index))) (\<lambda>od.
     bindE (py_float_div 100 (float_round u od)) (\<lambda>op.
       derive u tu tp rest
         (os[index := (os ! index)
               \<lparr>o_percentage_users := float_round u p,
                o_odds := float_round u od,
                o_odds_percentage := float_round u op\<rparr>]))))"

text \<open>The final \<open>__clear_outcomes\<close> finds only whitelisted keys and every derived key
  present, and changes nothing.\<close>

definition update_outcomes :: "utils \<Rightarrow> Bet \<Rightarrow> snapshot list \<Rightarrow> error + Bet" where
  "update_outcomes u b snaps =
     bindE (ingest snaps [0..<length (outcomes b)] (outcomes b)) (\<lambda>os.
     bindE (nth_err os 0) (\<lambda>o0.
     bindE (nth_err os 1) (\<lambda>o1.
       let tu = o_total_users o0 + o_total_users o1;
           tp = o_total_points o0 + o_total_points o1
       in bindE (if 0 < tu \<and> 0 < o_total_points o0 \<and> 0 < o_total_points o1
                 then derive u tu tp [0..<length os] os
                 else Inr os) (\<lambda>os'.
            Inr (b\<lparr>outcomes := os', total_users := tu, total_points := tp\<rparr>)))))"

subsection \<open>calculate\<close>

definition return_choice :: "Bet \<Rightarrow> string \<Rightarrow> error + string" where
  "return_choice b key =
     bindE (nth_err (outcomes b) 0) (\<lambda>o0.
     bindE (getitem o0 (Some key)) (\<lambda>v0.
     bindE (nth_err (outcomes b) 1) (\<lambda>o1.
     bindE (getitem o1 (Some key)) (\<lambda>v1.
       Inr (if v0 > v1 then ''A'' else ''B'')))))"

text \<open>\<open>abs(p0 - p1) < gap\<close>: the difference is rounded; an infinite one is below no
  gap.\<close>

definition difference_lt :: "rat \<Rightarrow> rat \<Rightarrow> int \<Rightarrow> bool" where
  "difference_lt p0 p1 gap = (\<not> overflows (p0 - p1) \<and> \<bar>fl (p0 - p1)\<bar> < of_int gap)"

text \<open>The chain of \<open>if\<close>/\<open>elif\<close> on the strategy; with no strategy set the choice
  stays None.\<close>

definition make_choice :: "Bet \<Rightarrow> error + string option" where
  "make_choice b =
     (case strategy (settings b) of
        None \<Rightarrow> Inr None
      | Some MOST_VOTED \<Rightarrow> map_sum id Some (return_choice b TOTAL_USERS)
      | Some HIGH_ODDS \<Rightarrow> map_sum id Some (return_choice b ODDS)
      | Some PERCENTAGE \<Rightarrow> map_sum id Some (return_choice b ODDS_PERCENTAGE)
      | Some SMART \<Rightarrow>
          bindE (nth_err (outcomes b) 0) (\<lambda>o0.
          bindE (getitem o0 (Some PERCENTAGE_USERS)) (\<lambda>p0.
          bindE (nth_err (outcomes b) 1) (\<lambda>o1.
          bindE (getitem o1 (Some PERCENTAGE_USERS)) (\<lambda>p1.
          bindE (require (percentage_gap (settings b)) TypeError) (\<lambda>gap.
            map_sum id Some
              (if difference_lt p0 p1 gap then return_choice b ODDS
               else return_choice b TOTAL_USERS)))))))"

text \<open>\<open>min(int(balance * (percentage / 100)), max_points)\<close>.\<close>

definition stake :: "BetSettings \<Rightarrow> int \<Rightarrow> error + int" where
  "stake st balance =
     bindE (require (percentage st) TypeError) (\<lambda>p.
     bindE (py_truediv p 100) (\<lambda>q.
     bindE (py_float (of_int balance)) (\<lambda>bf.
     bindE (int_of_float_op (bf * q)) (\<lambda>a.
     bindE (require (max_points st) TypeError) (\<lambda>m.
       Inr (min a m))))))"

text \<open>\<open>calculate\<close>; \<open>r\<close> is the value drawn by \<open>uniform(1, 5)\<close>. The updated Bet
  carries the decision that the method returns.\<close>

definition calculate :: "utils \<Rightarrow> rat \<Rightarrow> Bet \<Rightarrow> int \<Rightarrow> error + Bet" where
  "calculate u r b balance =
     bindE (make_choice b) (\<lambda>c.
       case c of
         None \<Rightarrow> Inr (b\<lparr>decision := Some \<lparr>choice = None, amount = 0, d_id = None\<rparr>\<rparr>)
       | Some ch \<Rightarrow>
           bindE (char_decision_as_index u (Some ch)) (\<lambda>index.
           bindE (nth_err (outcomes b) index) (\<lambda>oc.
           bindE (stake (settings b) balance) (\<lambda>a.
           bindE (if stealth_mode (settings b) = Some True \<and> o_top_points oc \<le> a
                  then bindE (py_float (of_int (o_top_points oc))) (\<lambda>t.
                         int_of_float_op (t - r))
                  else Inr a) (\<lambda>a'.
             Inr (b\<lparr>decision :=
                      Some \<lparr>choice = Some ch, amount = a', d_id = Some (o_id oc)\<rparr>\<rparr>))))))"

subsection \<open>skip\<close>

definition compare :: "Condition option \<Rightarrow> rat \<Rightarrow> rat option \<Rightarrow> error + bool" where
  "compare condition compared_value v =
     (case condition of
        None \<Rightarrow> Inr True
      | Some GT \<Rightarrow> bindE (require v TypeError) (\<lambda>x. Inr (\<not> compared_value > x))
      | Some LT \<Rightarrow> bindE (require v TypeError) (\<lambda>x. Inr (\<not> compared_value < x))
      | Some GTE \<Rightarrow> bindE (require v TypeError) (\<lambda>x. Inr (\<not> compared_value \<ge> x))
      | Some LTE \<Rightarrow> bindE (require v TypeError) (\<lambda>x. Inr (\<not> compared_value \<le> x)))"

definition skip :: "utils \<Rightarrow> Bet \<Rightarrow> error + (bool \<times> rat)" where
  "skip u b =
     (case filter_condition (settings b) of
        None \<Rightarrow> Inr (False, 0)
      | Some fc \<Rightarrow>
          (let key = fc_by fc;
               fixed_key =
                 (if \<not> (key = Some DECISION_USERS \<or> key = Some DECISION_POINTS) then key
                  else map_option (\<lambda>k. replace k ''decision'' ''total'') key)
           in bindE
                (if key = Some TOTAL_USERS \<or> key = Some TOTAL_POINTS
                 then bindE (nth_err (outcomes b) 0) (\<lambda>o0.
                      bindE (getitem o0 fixed_key) (\<lambda>v0.
                      bindE (nth_err (outcomes b) 1) (\<lambda>o1.
                      bindE (getitem o1 fixed_key) (\<lambda>v1. Inr (v0 + v1)))))
                 else bindE (require (decision b) KeyError) (\<lambda>d.
                      bindE (char_decision_as_index u (choice d)) (\<lambda>outcome_index.
                      bindE (nth_err (outcomes b) outcome_index) (\<lambda>oc.
                        getitem oc fixed_key))))
                (\<lambda>compared_value.
                   bindE (compare (fc_where fc) compared_value (fc_value fc)) (\<lambda>s.
                     Inr (s, compared_value)))))"

section \<open>What the specification says, for comparison\<close>

text \<open>The field that a metric names, on one outcome; the decision-scoped metrics are
  aliases of the totals.\<close>

definition metric :: "string \<Rightarrow> Outcome \<Rightarrow> rat" where
  "metric k oc =
     (if k = TOTAL_USERS \<or> k = DECISION_USERS then of_int (o_total_users oc)
      else if k = TOTAL_POINTS \<or> k = DECISION_POINTS then of_int (o_total_points oc)
      else if k = TOP_POINTS then of_int (o_top_points oc)
      else if k = PERCENTAGE_USERS then o_percentage_users oc
      else if k = ODDS then o_odds oc
      else o_odds_percentage oc)"

text \<open>The metric that a strategy compares: SMART defers to the odds when the gap of
  the user percentages is below the configured gap, and to the users otherwise.\<close>

definition compared_key :: "Bet \<Rightarrow> Strategy \<Rightarrow> string" where
  "compared_key b s =
     (case s of
        MOST_VOTED \<Rightarrow> TOTAL_USERS
      | HIGH_ODDS \<Rightarrow> ODDS
      | PERCENTAGE \<Rightarrow> ODDS_PERCENTAGE
      | SMART \<Rightarrow>
          (case percentage_gap (settings b) of
             None \<Rightarrow> TOTAL_USERS
           | Some gap \<Rightarrow>
               if difference_lt (o_percentage_users (outcomes b ! 0))
                    (o_percentage_users (outcomes b ! 1)) gap
               then ODDS else TOTAL_USERS))"

text \<open>The stake of the specification, in exact arithmetic.\<close>

definition exact_stake :: "int \<Rightarrow> int \<Rightarrow> int \<Rightarrow> int" where
  "exact_stake balance p m = min \<lfloor>of_int balance * of_int p / (100 :: rat)\<rfloor> m"

text \<open>The filter: whether the comparator holds, and the value that it compares, for
  the chosen outcome \<open>i\<close>.\<close>

definition holds :: "Condition \<Rightarrow> rat \<Rightarrow> rat \<Rightarrow> bool" where
  "holds w x v = (case w of GT \<Rightarrow> x > v | LT \<Rightarrow> x < v | GTE \<Rightarrow> x \<ge> v | LTE \<Rightarrow> x \<le> v)"

definition compared_value_of :: "string \<Rightarrow> Outcome list \<Rightarrow> nat \<Rightarrow> rat" where
  "compared_value_of k os i =
     (if k = TOTAL_USERS \<or> k = TOTAL_POINTS then metric k (os ! 0) + metric k (os ! 1)
      else metric k (os ! i))"

text \<open>The three derived fields of an outcome.\<close>

definition derived :: "Outcome \<Rightarrow> rat \<times> rat \<times> rat" where
  "derived oc = (o_percentage_users oc, o_odds oc, o_odds_percentage oc)"

section \<open>Concrete inputs\<close>

text \<open>Modelled from the spec: the module \<open>utils\<close> with \<open>char_decision_as_index\<close> and
  \<open>float_round\<close> is missing from the sources. The specification numbers the outcome of
  choice "A" 0 and that of choice "B" 1, and rounds the derived fields (its example gives
  the odds 10000 / 9000 as 1.11, two decimals). What the first does on another argument
  is not specified; it is an error here.\<close>

definition utils_spec :: utils where
  "utils_spec =
     \<lparr>char_decision_as_index =
        (\<lambda>c. if c = Some ''A'' then Inr 0
             else if c = Some ''B'' then Inr 1
             else Inl TypeError),
      float_round = (\<lambda>x. fl (of_int (round_even (x * 100)) / 100))\<rparr>"

definition payload :: "string \<Rightarrow> int \<Rightarrow> int \<Rightarrow> int list \<Rightarrow> snapshot" where
  "payload i n p tops =
     \<lparr>s_id = i, s_title = ''title'', s_color = ''BLUE'', s_total_users = n,
      s_total_points = p, s_top_predictors = tops\<rparr>"

definition example_settings :: "Strategy \<Rightarrow> int \<Rightarrow> bool \<Rightarrow> BetSettings" where
  "example_settings s p st =
     \<lparr>strategy = Some s, percentage = Some p, percentage_gap = Some 20,
      max_points = Some 50000, stealth_mode = Some st, filter_condition = None\<rparr>"

text \<open>A Bet on which \<open>update_outcomes\<close> has not run, with zero totals in the payload.\<close>

definition fresh_bet :: "BetSettings \<Rightarrow> Bet" where
  "fresh_bet st = Bet_init [payload ''x'' 0 0 [], payload ''y'' 0 0 []] st"

text \<open>The outcomes of the specification's example, 10 users with 1000 points against
  90 users with 9000 points, as \<open>update_outcomes\<close> leaves them with \<open>utils_spec\<close>; the
  largest stakes are 4000 and 7000.\<close>

definition example_outcomes :: "Outcome list" where
  "example_outcomes =
     [\<lparr>o_id = ''x'', o_title = ''title'', o_color = ''BLUE'', o_total_users = 10,
       o_total_points = 1000, o_top_points = 4000, o_percentage_users = 10,
       o_odds = 10, o_odds_percentage = 10\<rparr>,
      \<lparr>o_id = ''y'', o_title = ''title'', o_color = ''BLUE'', o_total_users = 90,
       o_total_points = 9000, o_top_points = 7000, o_percentage_users = 90,
       o_odds = 4998995586381251 / 4503599627370496,
       o_odds_percentage = 3169760081482875 / 35184372088832\<rparr>]"

definition example_bet :: "BetSettings \<Rightarrow> Decision option \<Rightarrow> Bet" where
  "example_bet st d =
     \<lparr>outcomes = example_outcomes, decision = d, total_users = 100,
      total_points = 10000, settings = st\<rparr>"

definition example_filter :: "string \<Rightarrow> Condition \<Rightarrow> rat \<Rightarrow> BetSettings" where
  "example_filter k w v =
     (example_settings MOST_VOTED 5 False)
       \<lparr>filter_condition := Some \<lparr>fc_by = Some k, fc_where = Some w, fc_value = Some v\<rparr>\<rparr>"

section \<open>Properties\<close>

subsection \<open>Error values\<close>

lemma bindE_simps [simp]:
  "bindE (Inr x) f = f x" "bindE (Inl e) f = Inl e"
  by (simp_all add: bindE_def)

lemma bindE_eq_Inr: "bindE m f = Inr y \<longleftrightarrow> (\<exists>x. m = Inr x \<and> f x = Inr y)"
  by (cases m) simp_all

lemma require_simps [simp]:
  "require (Some v) e = Inr v" "require None e = Inl e"
  by (simp_all add: require_def)

lemma nth_err_simps [simp]:
  "i < length xs \<Longrightarrow> nth_err xs i = Inr (xs ! i)"
  "\<not> i < length xs \<Longrightarrow> nth_err xs i = Inl IndexError"
  by (simp_all add: nth_err_def)

subsection \<open>Settings and the filter condition\<close>

lemma default_id: "default s = s"
  by (simp add: default_def truth_of_None_def)

text \<open>C3. \<open>default()\<close> is meant to fill each unset field with SMART, 5, 20, 50000 and
  False. On a settings object none of whose fields were configured it changes nothing:
  every field is still None afterwards.\<close>

theorem default_leaves_unset_fields:
  "default \<lparr>strategy = None, percentage = None, percentage_gap = None,
            max_points = None, stealth_mode = None, filter_condition = None\<rparr>
   = \<lparr>strategy = None, percentage = None, percentage_gap = None,
      max_points = None, stealth_mode = None, filter_condition = None\<rparr>"
  by (simp add: default_def truth_of_None_def)

lemma search_getattr:
  "b \<in> snd ` set OutcomeKeys_attrs \<Longrightarrow>
   \<exists>a. search (Some b) = Some a \<and> getattr_OutcomeKeys (Some a) = Inr b"
  by (auto simp: search_def getattr_OutcomeKeys_def OutcomeKeys_attrs_def OutcomeKeys_defs)

lemma Condition_roundtrip: "Condition_getitem (Condition_name w) = Inr w"
  by (cases w) (simp_all add: Condition_getitem_def)

text \<open>C9. For every filter condition whose \<open>by\<close> is the value of one of the eight
  OutcomeKeys constants, whose \<open>where\<close> is one of GT, LT, GTE, LTE and whose \<open>value\<close>
  is a number, \<open>to_dict\<close> succeeds and \<open>from_dict\<close> of its result gives back a
  condition with the same by, where and value.\<close>

theorem FilterCondition_roundtrip:
  assumes "b \<in> snd ` set OutcomeKeys_attrs"
  shows "\<exists>d. to_dict \<lparr>fc_by = Some b, fc_where = Some w, fc_value = Some v\<rparr> = Inr d
           \<and> from_dict d = Inr \<lparr>fc_by = Some b, fc_where = Some w, fc_value = Some v\<rparr>"
proof -
  from search_getattr [OF assms] obtain a
    where a: "search (Some b) = Some a" "getattr_OutcomeKeys (Some a) = Inr b"
    by blast
  then show ?thesis
    by (simp add: to_dict_def from_dict_def Condition_roundtrip)
qed

theorem FilterCondition_roundtrip_witness:
  "\<exists>d. to_dict \<lparr>fc_by = Some ''odds'', fc_where = Some GTE, fc_value = Some (3 / 2)\<rparr> = Inr d
       \<and> from_dict d = Inr \<lparr>fc_by = Some ''odds'', fc_where = Some GTE, fc_value = Some (3 / 2)\<rparr>"
  using FilterCondition_roundtrip [of "''odds''" GTE "3 / 2"]
  by (simp add: OutcomeKeys_attrs_def OutcomeKeys_defs)

subsection \<open>Rounding to binary64\<close>

lemma round_even_cases:
  "round_even x = \<lfloor>x\<rfloor> \<and> x - of_int \<lfloor>x\<rfloor> \<le> 1 / 2
   \<or> round_even x = \<lfloor>x\<rfloor> + 1 \<and> 1 / 2 \<le> x - of_int \<lfloor>x\<rfloor>"
  unfolding round_even_def Let_def by auto

lemma round_even_bounds: "\<bar>of_int (round_even x) - x\<bar> \<le> 1 / 2"
proof -
  have "of_int \<lfloor>x\<rfloor> \<le> x" "x < of_int \<lfloor>x\<rfloor> + 1" by linarith+
  then show ?thesis using round_even_cases [of x] by (auto simp: abs_le_iff)
qed

lemma round_even_ge: "of_int n \<le> x \<Longrightarrow> n \<le> round_even x"
proof -
  assume "of_int n \<le> x"
  then have "n \<le> \<lfloor>x\<rfloor>" by (simp add: le_floor_iff)
  then show ?thesis using round_even_cases [of x] by auto
qed

lemma round_even_of_int: "round_even (of_int n) = n"
  by (simp add: round_even_def)

lemma round_even_le: "x \<le> of_int n \<Longrightarrow> round_even x \<le> n"
proof -
  assume a: "x \<le> of_int n"
  show ?thesis
  proof (cases "x = of_int n")
    case True
    then show ?thesis by (simp add: round_even_of_int)
  next
    case False
    with a have "x < of_int n" by simp
    then have "\<lfloor>x\<rfloor> < n" by (simp add: floor_less_iff)
    then show ?thesis using round_even_cases [of x] by auto
  qed
qed

lemma bitlen_powi_bounds:
  fixes a :: int
  assumes "0 < a"
  shows "(2::rat) powi (bitlen a - 1) \<le> of_int a" "of_int a < (2::rat) powi bitlen a"
proof -
  from bitlen_bounds [OF assms] have b: "2 ^ nat (bitlen a - 1) \<le> a" "a < 2 ^ nat (bitlen a)"
    by auto
  have ge1: "1 \<le> bitlen a" using assms by (auto simp: bitlen_alt_def)
  have "(2::rat) powi (bitlen a - 1) = 2 ^ nat (bitlen a - 1)"
    using ge1 by (simp add: power_int_def)
  also have "\<dots> = of_int (2 ^ nat (bitlen a - 1))" by simp
  also have "\<dots> \<le> of_int a" using b(1) by (simp only: of_int_le_iff)
  finally show "(2::rat) powi (bitlen a - 1) \<le> of_int a" .
  have "(of_int a :: rat) < of_int (2 ^ nat (bitlen a))" using b(2) by (simp only: of_int_less_iff)
  also have "\<dots> = 2 powi bitlen a" using ge1 by (simp add: power_int_def)
  finally show "of_int a < (2::rat) powi bitlen a" .
qed

lemma ilog2_bounds:
  assumes "x \<noteq> 0"
  shows "2 powi ilog2 x \<le> \<bar>x\<bar>" "\<bar>x\<bar> < 2 powi (ilog2 x + 1)"
proof -
  obtain a b where q: "quotient_of \<bar>x\<bar> = (a, b)" by (cases "quotient_of \<bar>x\<bar>")
  have b: "0 < b" using q quotient_of_denom_pos by blast
  have x: "\<bar>x\<bar> = of_int a / of_int b" using q by (simp add: quotient_of_div)
  have "0 < \<bar>x\<bar>" using assms by simp
  then have a: "0 < a" using x b by (simp add: zero_less_divide_iff)
  define d where "d = bitlen a - bitlen b"
  have il: "ilog2 x = (if 2 powi d \<le> \<bar>x\<bar> then d else d - 1)"
    by (simp add: ilog2_def q d_def)
  have br: "(0::rat) < of_int b" using b by simp
  have lo: "(2::rat) powi (d - 1) < \<bar>x\<bar>"
  proof -
    have "(2::rat) powi (d - 1) * of_int b < 2 powi (d - 1) * 2 powi bitlen b"
      using bitlen_powi_bounds(2) [OF b] by simp
    also have "\<dots> = 2 powi (bitlen a - 1)"
      by (simp add: d_def power_int_add [symmetric])
    also have "\<dots> \<le> of_int a" by (rule bitlen_powi_bounds(1) [OF a])
    finally show ?thesis using br by (simp add: x pos_less_divide_eq)
  qed
  have hi: "\<bar>x\<bar> < (2::rat) powi (d + 1)"
  proof -
    have "of_int a < (2::rat) powi bitlen a" by (rule bitlen_powi_bounds(2) [OF a])
    also have "\<dots> = 2 powi (d + 1) * 2 powi (bitlen b - 1)"
      by (simp add: d_def power_int_add [symmetric])
    also have "\<dots> \<le> 2 powi (d + 1) * of_int b"
      using bitlen_powi_bounds(1) [OF b] by simp
    finally show ?thesis using br by (simp add: x pos_divide_less_eq)
  qed
  show "2 powi ilog2 x \<le> \<bar>x\<bar>" using lo by (auto simp: il)
  show "\<bar>x\<bar> < 2 powi (ilog2 x + 1)" using hi by (auto simp: il)
qed


lemma fl_eq: "x \<noteq> 0 \<Longrightarrow> fl x = of_int (round_even (x / 2 powi ulp_exp x)) * 2 powi ulp_exp x"
  by (simp add: fl_def)

lemma fl_nonneg: "0 \<le> x \<Longrightarrow> 0 \<le> fl x"
proof (cases "x = 0")
  case True
  then show ?thesis by (simp add: fl_def)
next
  case False
  assume "0 \<le> x"
  then have "of_int 0 \<le> x / 2 powi ulp_exp x" by simp
  then have "0 \<le> round_even (x / 2 powi ulp_exp x)" by (rule round_even_ge)
  then show ?thesis using False by (simp add: fl_eq)
qed

lemma fl_ge_int:
  assumes m: "0 < m" "m \<le> 2 ^ 53" and x: "of_int m \<le> x"
  shows "of_int m \<le> fl x"
proof -
  have xpos: "0 < x" using m x by (meson less_le_trans of_int_0_less_iff)
  then have x0: "x \<noteq> 0" by simp
  define k where "k = ulp_exp x"
  define u :: rat where "u = 2 powi k"
  have u: "0 < u" by (simp add: u_def)
  have fl: "fl x = of_int (round_even (x / u)) * u"
    using x0 by (simp add: fl_eq k_def u_def)
  show ?thesis
  proof (cases "k \<le> 0")
    case True
    have inv: "1 / u = of_int (2 ^ nat (- k))"
      using True by (simp add: u_def power_int_def field_simps)
    have "of_int (m * 2 ^ nat (- k)) = of_int m * (1 / u)"
      by (simp add: inv)
    also have "\<dots> \<le> x * (1 / u)"
      using x u by (intro mult_right_mono) simp_all
    finally have "of_int (m * 2 ^ nat (- k)) \<le> x / u" by simp
    then have "m * 2 ^ nat (- k) \<le> round_even (x / u)" by (rule round_even_ge)
    then have "(of_int (m * 2 ^ nat (- k)) :: rat) \<le> of_int (round_even (x / u))"
      by (simp only: of_int_le_iff)
    then have "of_int (m * 2 ^ nat (- k)) * u \<le> fl x"
      using u by (simp only: fl mult_le_cancel_right_pos)
    moreover have "of_int (m * 2 ^ nat (- k)) * u = of_int m * (1 / u * u)"
      by (simp only: inv of_int_mult mult.assoc)
    moreover have "1 / u * u = 1" using u by simp
    ultimately show ?thesis by (simp only: mult_1_right)
  next
    case False
    then have k: "k = ilog2 x - 52" by (simp add: k_def ulp_exp_def)
    have e: "2 powi (k + 52) \<le> x"
      using ilog2_bounds(1) [OF x0] xpos by (simp add: k)
    have "(2::rat) powi (k + 52) = 2 ^ 52 * u"
      by (simp add: u_def power_int_add)
    then have "(2::rat) ^ 52 \<le> x / u" using e u by (simp add: pos_le_divide_eq)
    then have "of_int (2 ^ 52) \<le> x / u" by simp
    then have "2 ^ 52 \<le> round_even (x / u)" by (rule round_even_ge)
    then have "(of_int (2 ^ 52) :: rat) \<le> of_int (round_even (x / u))"
      by (simp only: of_int_le_iff)
    then have "2 ^ 52 * u \<le> fl x" using u by (simp add: fl)
    moreover have "2 \<le> u"
    proof -
      have "1 \<le> k" using False by simp
      then have "(2::rat) powi 1 \<le> 2 powi k" by (intro power_int_increasing) simp_all
      then show ?thesis by (simp add: u_def)
    qed
    moreover have "(of_int m :: rat) \<le> 2 ^ 53"
    proof -
      have "(of_int m :: rat) \<le> of_int (2 ^ 53)" using m(2) by (simp only: of_int_le_iff)
      then show ?thesis by simp
    qed
    ultimately show ?thesis by simp
  qed
qed

lemma fl_error: "\<bar>fl x - x\<bar> \<le> max \<bar>x\<bar> (2 powi (- 1022)) / 2 ^ 53"
proof (cases "x = 0")
  case True
  then show ?thesis by (simp add: fl_def)
next
  case False
  define k where "k = ulp_exp x"
  define u :: rat where "u = 2 powi k"
  have u: "0 < u" by (simp add: u_def)
  have fl: "fl x = of_int (round_even (x / u)) * u"
    using False by (simp add: fl_eq k_def u_def)
  have "fl x - x = (of_int (round_even (x / u)) - x / u) * u"
    using u by (simp add: fl field_simps)
  then have "\<bar>fl x - x\<bar> = \<bar>of_int (round_even (x / u)) - x / u\<bar> * u"
    using u by (simp add: abs_mult)
  also have "\<dots> \<le> 1 / 2 * u"
    using round_even_bounds [of "x / u"] u by (intro mult_right_mono) simp_all
  finally have err: "\<bar>fl x - x\<bar> \<le> u / 2" by simp
  have "u / 2 \<le> max \<bar>x\<bar> (2 powi (- 1022)) / 2 ^ 53"
  proof (cases "- 1074 \<le> ilog2 x - 52")
    case True
    then have k: "k = ilog2 x - 52" by (simp add: k_def ulp_exp_def)
    have "2 powi ilog2 x = u * 2 ^ 52"
      by (simp add: u_def k power_int_diff)
    then have "u * 2 ^ 52 \<le> \<bar>x\<bar>" using ilog2_bounds(1) [OF False] by simp
    then have "u / 2 \<le> \<bar>x\<bar> / 2 ^ 53" by (simp add: field_simps)
    also have "\<dots> \<le> max \<bar>x\<bar> (2 powi (- 1022)) / 2 ^ 53"
      by (intro divide_right_mono) simp_all
    finally show ?thesis .
  next
    case False
    then have k: "k = - 1074" by (simp add: k_def ulp_exp_def)
    have "u / 2 = 2 powi (- 1022) / 2 ^ 53"
      by (simp add: u_def k power_int_def field_simps)
    also have "\<dots> \<le> max \<bar>x\<bar> (2 powi (- 1022)) / 2 ^ 53"
      by (intro divide_right_mono) simp_all
    finally show ?thesis .
  qed
  with err show ?thesis by linarith
qed

lemma ilog2_0: "ilog2 0 = - 2"
  by code_simp

lemma powi2_less_iff: "(2::rat) powi a < 2 powi b \<longleftrightarrow> a < b"
proof
  assume l: "(2::rat) powi a < 2 powi b"
  show "a < b"
  proof (rule ccontr)
    assume "\<not> a < b"
    then have "(2::rat) powi b \<le> 2 powi a" by (intro power_int_increasing) simp_all
    with l show False by simp
  qed
next
  assume "a < b"
  then show "(2::rat) powi a < 2 powi b" by (intro power_int_strict_increasing) simp_all
qed

lemma overflows_iff: "overflows x \<longleftrightarrow> 2 ^ 1024 \<le> \<bar>fl x\<bar>"
proof (cases "fl x = 0")
  case True
  then show ?thesis by (simp add: overflows_def ilog2_0)
next
  case False
  note b = ilog2_bounds [OF False]
  show ?thesis
  proof
    assume "overflows x"
    then have "(2::rat) powi 1024 \<le> 2 powi ilog2 (fl x)"
      unfolding overflows_def by (intro power_int_increasing) simp_all
    with b(1) show "2 ^ 1024 \<le> \<bar>fl x\<bar>" by simp
  next
    assume "2 ^ 1024 \<le> \<bar>fl x\<bar>"
    with b(2) have "(2::rat) powi 1024 < 2 powi (ilog2 (fl x) + 1)" by simp
    then have "1024 < ilog2 (fl x) + 1" by (simp only: powi2_less_iff)
    then show "overflows x" by (simp add: overflows_def)
  qed
qed


lemma fl_le_int:
  assumes m: "m \<le> 2 ^ 53" and x: "0 < x" "x \<le> of_int m"
  shows "fl x \<le> of_int m"
proof -
  have x0: "x \<noteq> 0" using x by simp
  define k where "k = ulp_exp x"
  define u :: rat where "u = 2 powi k"
  have u: "0 < u" by (simp add: u_def)
  have fl: "fl x = of_int (round_even (x / u)) * u"
    using x0 by (simp add: fl_eq k_def u_def)
  have mr: "(of_int m :: rat) \<le> 2 ^ 53"
  proof -
    have "(of_int m :: rat) \<le> of_int (2 ^ 53)" using m by (simp only: of_int_le_iff)
    then show ?thesis by simp
  qed
  show ?thesis
  proof (cases "k \<le> 0")
    case True
    have inv: "1 / u = of_int (2 ^ nat (- k))"
      using True by (simp add: u_def power_int_def field_simps)
    have "x * (1 / u) \<le> of_int m * (1 / u)"
      using x u by (intro mult_right_mono) simp_all
    also have "\<dots> = of_int (m * 2 ^ nat (- k))" by (simp add: inv)
    finally have "x / u \<le> of_int (m * 2 ^ nat (- k))" by simp
    then have "round_even (x / u) \<le> m * 2 ^ nat (- k)" by (rule round_even_le)
    then have "(of_int (round_even (x / u)) :: rat) \<le> of_int (m * 2 ^ nat (- k))"
      by (simp only: of_int_le_iff)
    then have "fl x \<le> of_int (m * 2 ^ nat (- k)) * u"
      using u by (simp only: fl mult_le_cancel_right_pos)
    moreover have "of_int (m * 2 ^ nat (- k)) * u = of_int m * (1 / u * u)"
      by (simp only: inv of_int_mult mult.assoc)
    moreover have "1 / u * u = 1" using u by simp
    ultimately show ?thesis by (simp only: mult_1_right)
  next
    case False
    then have k: "k = ilog2 x - 52" by (simp add: k_def ulp_exp_def)
    have e: "2 powi (k + 52) \<le> x"
      using ilog2_bounds(1) [OF x0] x by (simp add: k)
    with x(2) mr have "(2::rat) powi (k + 52) \<le> 2 powi 53" by simp
    then have "\<not> (2::rat) powi 53 < 2 powi (k + 52)" by simp
    then have "\<not> 53 < k + 52" unfolding powi2_less_iff .
    with False have k1: "k = 1" by simp
    then have x53: "x = 2 ^ 53" using e x(2) mr by simp
    have "x / u = of_int (2 ^ 52)" by (simp add: x53 u_def k1)
    then have "round_even (x / u) = 2 ^ 52" by (simp only: round_even_of_int)
    then have "fl x = 2 ^ 53" by (simp add: fl u_def k1)
    then show ?thesis using x53 x(2) by simp
  qed
qed

lemma fl_of_int: "0 \<le> n \<Longrightarrow> n \<le> 2 ^ 53 \<Longrightarrow> fl (of_int n) = of_int n"
proof (cases "n = 0")
  case True
  then show ?thesis by (simp add: fl_def)
next
  case False
  assume "0 \<le> n" "n \<le> 2 ^ 53"
  with False have n: "0 < n" by simp
  have "of_int n \<le> fl (of_int n)"
    using n \<open>n \<le> 2 ^ 53\<close> by (intro fl_ge_int) simp_all
  moreover have "fl (of_int n) \<le> of_int n"
    using n \<open>n \<le> 2 ^ 53\<close> by (intro fl_le_int) simp_all
  ultimately show ?thesis by simp
qed

lemma not_overflows:
  assumes "\<bar>x\<bar> \<le> 2 ^ 1000"
  shows "\<not> overflows x"
proof -
  have "max \<bar>x\<bar> (2 powi (- 1022)) \<le> (2::rat) ^ 1000"
  proof -
    have "(2::rat) powi (- 1022) \<le> 2 powi 1000" by (intro power_int_increasing) simp_all
    then show ?thesis using assms by simp
  qed
  then have "max \<bar>x\<bar> (2 powi (- 1022)) / 2 ^ 53 \<le> (2::rat) ^ 1000 / 2 ^ 53"
    by (intro divide_right_mono) simp_all
  also have "\<dots> \<le> 2 ^ 1000" by simp
  finally have "\<bar>fl x - x\<bar> \<le> 2 ^ 1000" using fl_error [of x] by linarith
  with assms have "\<bar>fl x\<bar> \<le> 2 ^ 1000 + 2 ^ 1000" by linarith
  also have "\<dots> < (2::rat) ^ 1024" by simp
  finally show ?thesis by (simp add: overflows_iff)
qed



subsection \<open>Evaluation on the concrete inputs\<close>

lemma eval_truediv_5: "py_truediv 5 100 = Inr (3602879701896397 / 72057594037927936)"
  by code_simp

lemma eval_truediv_29: "py_truediv 29 100 = Inr (5224175567749775 / 18014398509481984)"
  by code_simp

lemma eval_float_100000: "py_float 100000 = Inr 100000"
  by code_simp

lemma eval_float_100: "py_float 100 = Inr 100"
  by code_simp

lemma eval_product_5:
  "int_of_float_op (11258999068426240625 / 2251799813685248) = Inr 5000"
  by code_simp

lemma eval_product_29:
  "int_of_float_op (130604389193744375 / 4503599627370496) = Inr 28"
  by code_simp

lemma eval_stake_5: "stake (example_settings s 5 st) 100000 = Inr 5000"
  by (simp add: stake_def example_settings_def eval_truediv_5 eval_float_100000
      eval_product_5)

lemma eval_stake_29: "stake (example_settings s 29 st) 100 = Inr 28"
  by (simp add: stake_def example_settings_def eval_truediv_29 eval_float_100
      eval_product_29)

lemma eval_float_0: "py_float 0 = Inr 0"
  by code_simp

lemma eval_float_4000: "py_float 4000 = Inr 4000"
  by code_simp

lemma eval_stealth_0: "int_of_float_op (- 1) = Inr (- 1)"
  by code_simp

lemma eval_stealth_4000: "int_of_float_op (7997 / 2) = Inr 3998"
  by code_simp

lemma eval_difference_0: "difference_lt 0 0 20"
  by code_simp

lemmas eval_defs =
  calculate_def make_choice_def return_choice_def getitem_def OutcomeKeys_defs
  fresh_bet_def Bet_init_def clear_outcome_def payload_def example_bet_def
  example_outcomes_def utils_spec_def

lemma eval_settings [simp]:
  "strategy (example_settings s p st) = Some s"
  "percentage (example_settings s p st) = Some p"
  "percentage_gap (example_settings s p st) = Some 20"
  "max_points (example_settings s p st) = Some 50000"
  "stealth_mode (example_settings s p st) = Some st"
  "filter_condition (example_settings s p st) = None"
  by (simp_all add: example_settings_def)

lemma eval_example_high_odds:
  "calculate utils_spec r (example_bet (example_settings HIGH_ODDS 5 False) d) 100000
     = Inr ((example_bet (example_settings HIGH_ODDS 5 False) d)
             \<lparr>decision := Some \<lparr>choice = Some ''A'', amount = 5000, d_id = Some ''x''\<rparr>\<rparr>)"
  by (simp add: eval_defs eval_stake_5)

subsection \<open>skip and the choice of calculate\<close>

lemma replace_decision:
  "replace DECISION_USERS ''decision'' ''total'' = TOTAL_USERS"
  "replace DECISION_POINTS ''decision'' ''total'' = TOTAL_POINTS"
  by (simp_all add: replace_def OutcomeKeys_defs)

lemma OutcomeKeys_values:
  "k \<in> snd ` set OutcomeKeys_attrs \<longleftrightarrow>
   k = DECISION_POINTS \<or> k = DECISION_USERS \<or> k = ODDS \<or> k = ODDS_PERCENTAGE
   \<or> k = PERCENTAGE_USERS \<or> k = TOP_POINTS \<or> k = TOTAL_POINTS \<or> k = TOTAL_USERS"
  by (auto simp: OutcomeKeys_attrs_def)

lemma getitem_metric:
  "k \<in> snd ` set OutcomeKeys_attrs \<Longrightarrow> k \<noteq> DECISION_USERS \<Longrightarrow> k \<noteq> DECISION_POINTS \<Longrightarrow>
   getitem oc (Some k) = Inr (metric k oc)"
  unfolding OutcomeKeys_values
  by (auto simp: getitem_def metric_def OutcomeKeys_defs)

lemma compare_holds:
  "compare (Some w) x (Some v) = Inr (\<not> holds w x v)"
  by (cases w) (simp_all add: compare_def holds_def)

text \<open>C10. With a filter on a metric other than total_users and total_points, \<open>skip\<close>
  called while the decision is still the empty dictionary of the constructor, that is
  before any \<open>calculate\<close>, raises KeyError instead of returning a pair.\<close>

theorem skip_before_calculate:
  assumes "decision b = None"
    and "filter_condition (settings b) = Some fc"
    and "fc_by fc \<noteq> Some TOTAL_USERS" and "fc_by fc \<noteq> Some TOTAL_POINTS"
  shows "skip u b = Inl KeyError"
  using assms by (simp add: skip_def Let_def)

theorem skip_before_calculate_witness:
  "skip utils_spec (fresh_bet (example_filter ODDS GT 2)) = Inl KeyError"
  using skip_before_calculate [of "fresh_bet (example_filter ODDS GT 2)"
      "\<lparr>fc_by = Some ODDS, fc_where = Some GT, fc_value = Some 2\<rparr>" utils_spec]
  by (simp add: fresh_bet_def Bet_init_def example_filter_def example_settings_def OutcomeKeys_defs)

text \<open>C6 (amended). Without a filter \<open>skip\<close> returns (False, 0). With a filter on
  one of the OutcomeKeys metrics, a comparator and a threshold, on a Bet with two
  outcomes, it returns False exactly when the comparator holds between the compared value
  and the threshold, together with the compared value: for total_users and total_points,
  whatever the decision, the sum of the field over both outcomes; for every other metric,
  provided that the decision has a choice entry that \<open>char_decision_as_index\<close> maps to
  one of the two outcomes, the field of that outcome, where decision_users and
  decision_points read its total_users and total_points.\<close>

theorem skip_filter:
  "(filter_condition (settings b) = None \<longrightarrow> skip u b = Inr (False, 0)) \<and>
   (\<forall>fc k w v. filter_condition (settings b) = Some fc \<and> fc_by fc = Some k
        \<and> k \<in> snd ` set OutcomeKeys_attrs
        \<and> fc_where fc = Some w \<and> fc_value fc = Some v \<and> length (outcomes b) = 2
        \<and> (k = TOTAL_USERS \<or> k = TOTAL_POINTS
            \<or> (\<exists>d. decision b = Some d \<and> char_decision_as_index u (choice d) = Inr i) \<and> i < 2)
      \<longrightarrow> skip u b = Inr (\<not> holds w (compared_value_of k (outcomes b) i) v,
                            compared_value_of k (outcomes b) i))"
proof (intro conjI allI impI)
  assume "filter_condition (settings b) = None"
  then show "skip u b = Inr (False, 0)" by (simp add: skip_def)
next
  fix fc k w v
  assume a: "filter_condition (settings b) = Some fc \<and> fc_by fc = Some k
        \<and> k \<in> snd ` set OutcomeKeys_attrs
        \<and> fc_where fc = Some w \<and> fc_value fc = Some v \<and> length (outcomes b) = 2
        \<and> (k = TOTAL_USERS \<or> k = TOTAL_POINTS
            \<or> (\<exists>d. decision b = Some d \<and> char_decision_as_index u (choice d) = Inr i) \<and> i < 2)"
  let ?cv = "compared_value_of k (outcomes b) i"
  have len: "length (outcomes b) = 2" using a by simp
  show "skip u b = Inr (\<not> holds w ?cv v, ?cv)"
  proof (cases "k = TOTAL_USERS \<or> k = TOTAL_POINTS")
    case True
    then have "getitem oc (Some k) = Inr (metric k oc)" for oc
      by (auto simp: getitem_def metric_def OutcomeKeys_defs)
    moreover have "k \<noteq> DECISION_USERS" "k \<noteq> DECISION_POINTS"
      using True by (auto simp: OutcomeKeys_defs)
    ultimately show ?thesis
      using a True len by (simp add: skip_def Let_def compare_holds compared_value_of_def)
  next
    case False
    with a obtain d where d: "decision b = Some d" "char_decision_as_index u (choice d) = Inr i"
      and i: "i < 2" by auto
    have k: "k \<in> snd ` set OutcomeKeys_attrs" using a by simp
    show ?thesis
    proof (cases "k = DECISION_USERS \<or> k = DECISION_POINTS")
      case True
      then have "getitem oc (map_option (\<lambda>k. replace k ''decision'' ''total'') (Some k))
          = Inr (metric k oc)" for oc
        by (auto simp: replace_decision) (simp_all add: getitem_def metric_def OutcomeKeys_defs)
      then show ?thesis
        using a True False d i len
        by (auto simp add: skip_def Let_def compare_holds compared_value_of_def)
    next
      case dec: False
      then have "getitem oc (Some k) = Inr (metric k oc)" for oc
        using getitem_metric [OF k] by simp
      then show ?thesis
        using a dec False d i len
        by (simp add: skip_def Let_def compare_holds compared_value_of_def)
    qed
  qed
qed


theorem skip_filter_witness:
  "skip utils_spec (fresh_bet (example_settings SMART 5 False)) = Inr (False, 0)
   \<and> skip utils_spec (example_bet (example_filter DECISION_USERS GT 50)
          (Some \<lparr>choice = Some ''B'', amount = 5000, d_id = Some ''y''\<rparr>)) = Inr (False, 90)
   \<and> skip utils_spec (example_bet (example_filter TOTAL_POINTS LT 5000) None)
        = Inr (True, 10000)"
  using skip_filter [of "fresh_bet (example_settings SMART 5 False)" utils_spec 0,
      THEN conjunct1]
    skip_filter [of "example_bet (example_filter DECISION_USERS GT 50)
          (Some \<lparr>choice = Some ''B'', amount = 5000, d_id = Some ''y''\<rparr>)" utils_spec 1,
      THEN conjunct2, rule_format,
      of "\<lparr>fc_by = Some DECISION_USERS, fc_where = Some GT, fc_value = Some 50\<rparr>"
        DECISION_USERS GT 50]
    skip_filter [of "example_bet (example_filter TOTAL_POINTS LT 5000) None" utils_spec 0,
      THEN conjunct2, rule_format,
      of "\<lparr>fc_by = Some TOTAL_POINTS, fc_where = Some LT, fc_value = Some 5000\<rparr>"
        TOTAL_POINTS LT 5000]
  by (simp add: fresh_bet_def Bet_init_def example_settings_def example_bet_def
      example_filter_def example_outcomes_def utils_spec_def OutcomeKeys_attrs_def
      compared_value_of_def metric_def holds_def OutcomeKeys_defs)

text \<open>C6 as stated, for every decision, fails: on the empty decision of the
  constructor, with a filter on percentage_users, \<open>skip\<close> returns no pair but raises
  KeyError, although the comparator holds for the field of either outcome.\<close>

theorem skip_empty_decision:
  "skip utils_spec (fresh_bet (example_filter PERCENTAGE_USERS LT 50)) = Inl KeyError
   \<and> holds LT (metric PERCENTAGE_USERS
          (outcomes (fresh_bet (example_filter PERCENTAGE_USERS LT 50)) ! 0)) 50
   \<and> holds LT (metric PERCENTAGE_USERS
          (outcomes (fresh_bet (example_filter PERCENTAGE_USERS LT 50)) ! 1)) 50"
  by (simp add: skip_def Let_def fresh_bet_def Bet_init_def clear_outcome_def
      example_filter_def example_settings_def holds_def metric_def OutcomeKeys_defs)

lemma map_sum_Some_eq_Inr:
  "map_sum id Some m = Inr c \<longleftrightarrow> (\<exists>ch. m = Inr ch \<and> c = Some ch)"
  by (cases m) auto

lemma return_choice_metric:
  assumes "return_choice b k = Inr ch"
    and "k = TOTAL_USERS \<or> k = ODDS \<or> k = ODDS_PERCENTAGE"
  shows "ch = (if metric k (outcomes b ! 0) > metric k (outcomes b ! 1) then ''A'' else ''B'')"
proof -
  have g: "getitem oc (Some k) = Inr (metric k oc)" for oc
    using assms(2) by (auto simp: getitem_def metric_def OutcomeKeys_defs)
  have "1 < length (outcomes b)"
    using assms(1) by (auto simp: return_choice_def nth_err_def bindE_eq_Inr split: if_splits)
  then have "nth_err (outcomes b) 0 = Inr (outcomes b ! 0)"
    "nth_err (outcomes b) 1 = Inr (outcomes b ! 1)"
    by (auto simp: nth_err_def)
  then show ?thesis
    using assms(1) by (auto simp: return_choice_def g)
qed

lemma compared_key_cases:
  "compared_key b s = TOTAL_USERS \<or> compared_key b s = ODDS
   \<or> compared_key b s = ODDS_PERCENTAGE"
  by (cases s) (auto simp: compared_key_def split: option.splits)

lemma make_choice_key:
  assumes "make_choice b = Inr c" and "strategy (settings b) = Some s"
  shows "\<exists>ch. c = Some ch \<and> return_choice b (compared_key b s) = Inr ch"
proof (cases s)
  case SMART
  have pu: "getitem oc (Some PERCENTAGE_USERS) = Inr (o_percentage_users oc)" for oc
    by (simp add: getitem_def OutcomeKeys_defs)
  from assms SMART show ?thesis
    by (auto simp: make_choice_def compared_key_def pu bindE_eq_Inr map_sum_Some_eq_Inr
        nth_err_def require_def split: if_splits option.splits)
qed (use assms in \<open>auto simp: make_choice_def compared_key_def map_sum_Some_eq_Inr\<close>)

lemma calculate_choice_made:
  assumes "calculate u r b balance = Inr b'" and "make_choice b = Inr (Some ch)"
  shows "\<exists>d. decision b' = Some d \<and> choice d = Some ch"
  using assms by (auto simp: calculate_def bindE_eq_Inr)

text \<open>C1 (amended). For every strategy, when \<open>calculate\<close> returns, the choice is "A"
  exactly when outcome 0's compared metric is strictly greater than outcome 1's, and "B"
  otherwise: on equality the choice is "B".\<close>

theorem calculate_choice:
  assumes "calculate u r b balance = Inr b'" and "strategy (settings b) = Some s"
  shows "\<exists>d. decision b' = Some d
           \<and> choice d = Some (if metric (compared_key b s) (outcomes b ! 0)
                                  > metric (compared_key b s) (outcomes b ! 1)
                               then ''A'' else ''B'')"
proof -
  from assms(1) obtain c where c: "make_choice b = Inr c"
    by (auto simp: calculate_def bindE_eq_Inr)
  from make_choice_key [OF c assms(2)] obtain ch
    where ch: "c = Some ch" "return_choice b (compared_key b s) = Inr ch" by blast
  from return_choice_metric [OF ch(2) compared_key_cases]
    calculate_choice_made [OF assms(1) c [unfolded ch(1)]]
  show ?thesis by simp
qed

theorem calculate_choice_witness:
  "calculate utils_spec (3 / 2) (example_bet (example_settings HIGH_ODDS 5 False) None) 100000
     = Inr ((example_bet (example_settings HIGH_ODDS 5 False) None)
             \<lparr>decision := Some \<lparr>choice = Some ''A'', amount = 5000, d_id = Some ''x''\<rparr>\<rparr>)
   \<and> strategy (settings (example_bet (example_settings HIGH_ODDS 5 False) None))
       = Some HIGH_ODDS
   \<and> metric ODDS (example_outcomes ! 1) < metric ODDS (example_outcomes ! 0)"
  using calculate_choice [OF eval_example_high_odds [of "3 / 2" None], of HIGH_ODDS]
    eval_example_high_odds [of "3 / 2" None]
  by (simp add: example_bet_def compared_key_def metric_def example_outcomes_def
      OutcomeKeys_defs)

text \<open>C1 as stated fails: with equal metrics (here no users on either side, strategy
  MOST_VOTED) the choice is "B", although outcome 1's metric is not strictly greater.\<close>

theorem choice_B_on_tie:
  "calculate utils_spec 1 (fresh_bet (example_settings MOST_VOTED 5 False)) 100000
     = Inr ((fresh_bet (example_settings MOST_VOTED 5 False))
             \<lparr>decision := Some \<lparr>choice = Some ''B'', amount = 5000, d_id = Some ''y''\<rparr>\<rparr>)
   \<and> \<not> metric TOTAL_USERS (outcomes (fresh_bet (example_settings MOST_VOTED 5 False)) ! 0)
        < metric TOTAL_USERS (outcomes (fresh_bet (example_settings MOST_VOTED 5 False)) ! 1)"
  by (simp add: eval_defs eval_stake_5 metric_def)

subsection \<open>The stake\<close>

lemma trunc_nonneg: "0 \<le> x \<Longrightarrow> trunc x = \<lfloor>x\<rfloor>"
  by (simp add: trunc_def)

lemma stake_product:
  assumes p: "0 \<le> p" "p \<le> 100" and b: "0 \<le> balance" "balance \<le> 2 ^ 44"
  defines "q \<equiv> fl (of_int p / 100)"
  defines "y \<equiv> of_int balance * q"
  shows "py_truediv p 100 = Inr q" "py_float (of_int balance) = Inr (of_int balance)"
    "int_of_float_op y = Inr \<lfloor>fl y\<rfloor>"
    "\<bar>fl y - of_int (balance * p) / 100\<bar> \<le> 3 / 512"
proof -
  define P :: rat where "P = of_int p / 100"
  define B :: rat where "B = of_int balance"
  have P: "0 \<le> P" "P \<le> 1" using p by (simp_all add: P_def)
  have B: "0 \<le> B" "B \<le> 2 ^ 44"
  proof -
    show "0 \<le> B" using b by (simp add: B_def)
    have "(of_int balance :: rat) \<le> of_int (2 ^ 44)" using b(2) by (simp only: of_int_le_iff)
    then show "B \<le> 2 ^ 44" by (simp add: B_def)
  qed
  have t: "(2::rat) powi (- 1022) \<le> 1"
    using power_int_increasing [of "- 1022" 0 "2::rat"] by simp
  have "\<not> overflows P" using P by (intro not_overflows) simp
  then show "py_truediv p 100 = Inr q"
    by (simp add: py_truediv_def py_float_def q_def P_def)
  have q0: "0 \<le> q" unfolding q_def using P by (intro fl_nonneg) (simp add: P_def)
  have "\<bar>q - P\<bar> \<le> max \<bar>P\<bar> (2 powi (- 1022)) / 2 ^ 53"
    unfolding q_def P_def by (rule fl_error)
  also have "\<dots> \<le> 1 / 2 ^ 53"
    using P t by (intro divide_right_mono) simp_all
  finally have qP: "\<bar>q - P\<bar> \<le> 1 / 2 ^ 53" .
  have "\<not> overflows B" using B by (intro not_overflows) simp
  moreover have "balance \<le> 2 ^ 53" using b(2) by simp
  ultimately show "py_float (of_int balance) = Inr (of_int balance)"
    using b(1) by (simp add: py_float_def fl_of_int B_def)
  have y: "y = B * q" by (simp add: y_def B_def)
  have y0: "0 \<le> y" using B q0 by (simp add: y)
  have "(1::rat) / 2 ^ 53 \<le> 1" by simp
  with qP P have "q \<le> 2" by linarith
  with B q0 have "B * q \<le> 2 ^ 44 * 2" by (intro mult_mono) simp_all
  then have y45: "y \<le> 2 ^ 45" by (simp add: y)
  have "\<not> overflows y" using y0 y45 by (intro not_overflows) simp
  moreover have "0 \<le> fl y" using y0 by (rule fl_nonneg)
  ultimately show "int_of_float_op y = Inr \<lfloor>fl y\<rfloor>"
    by (simp add: int_of_float_op_def trunc_nonneg)
  have "\<bar>fl y - y\<bar> \<le> max \<bar>y\<bar> (2 powi (- 1022)) / 2 ^ 53" by (rule fl_error)
  also have "\<dots> \<le> 2 ^ 45 / 2 ^ 53"
    using y0 y45 t by (intro divide_right_mono) simp_all
  finally have e1: "\<bar>fl y - y\<bar> \<le> 1 / 256" by simp
  have "\<bar>y - B * P\<bar> = B * \<bar>q - P\<bar>"
    using B by (simp add: y abs_mult flip: right_diff_distrib)
  also have "\<dots> \<le> 2 ^ 44 * (1 / 2 ^ 53)"
    using B qP by (intro mult_mono) simp_all
  finally have e2: "\<bar>y - B * P\<bar> \<le> 1 / 512" by simp
  have "B * P = of_int (balance * p) / 100" by (simp add: B_def P_def)
  with e1 e2 show "\<bar>fl y - of_int (balance * p) / 100\<bar> \<le> 3 / 512" by linarith
qed

lemma floor_near_multiple:
  fixes z :: rat and n :: int
  assumes "\<bar>z - of_int n / 100\<bar> \<le> 3 / 512"
  shows "\<lfloor>z\<rfloor> = n div 100 \<or> \<lfloor>z\<rfloor> = n div 100 - 1"
    and "n mod 100 \<noteq> 0 \<Longrightarrow> \<lfloor>z\<rfloor> = n div 100"
proof -
  define F where "F = n div 100"
  define r where "r = n mod 100"
  have n: "n = 100 * F + r" and r: "0 \<le> r" "r < 100"
    by (simp_all add: F_def r_def)
  have nr: "(of_int n :: rat) / 100 = of_int F + of_int r / 100"
    by (simp add: n)
  have r': "(0::rat) \<le> of_int r" "(of_int r :: rat) \<le> 99"
    using r by simp_all
  have hi: "z < of_int F + 1" using assms nr r' by linarith
  have lo: "of_int F - 1 < z" using assms nr r' by linarith
  have up: "\<lfloor>z\<rfloor> \<le> F"
  proof -
    have "z < of_int (F + 1)" using hi by simp
    then have "\<lfloor>z\<rfloor> < F + 1" by (simp only: floor_less_iff)
    then show ?thesis by simp
  qed
  have dn: "F - 1 \<le> \<lfloor>z\<rfloor>"
  proof -
    have "of_int (F - 1) \<le> z" using lo by simp
    then show ?thesis by (simp only: le_floor_iff)
  qed
  show "\<lfloor>z\<rfloor> = n div 100 \<or> \<lfloor>z\<rfloor> = n div 100 - 1"
    using up dn unfolding F_def by linarith
  show "\<lfloor>z\<rfloor> = n div 100" if "n mod 100 \<noteq> 0"
  proof -
    from that r have "1 \<le> r" by (simp add: r_def)
    then have "(1::rat) \<le> of_int r" by simp
    then have "of_int F \<le> z" using assms nr by linarith
    then have "F \<le> \<lfloor>z\<rfloor>" by (simp only: le_floor_iff)
    with up show ?thesis unfolding F_def by simp
  qed
qed

text \<open>C5 (amended). The stake before any stealth adjustment is
  \<open>min(int(balance * (percentage / 100)), max_points)\<close> in binary64 arithmetic. For a
  percentage from 0 to 100 and a balance from 0 to \<open>2 ^ 44\<close> it is \<open>min a max_points\<close>
  where \<open>a\<close> is \<open>floor(balance * percentage / 100)\<close> or one less, and one less only when
  \<open>balance * percentage\<close> is a multiple of 100.\<close>

theorem stake_near_exact:
  assumes "percentage st = Some p" and "max_points st = Some m"
    and "0 \<le> p" and "p \<le> 100" and "0 \<le> balance" and "balance \<le> 2 ^ 44"
  shows "\<exists>a. stake st balance = Inr (min a m)
           \<and> (a = \<lfloor>of_int balance * of_int p / (100 :: rat)\<rfloor>
               \<or> a = \<lfloor>of_int balance * of_int p / (100 :: rat)\<rfloor> - 1)
           \<and> ((balance * p) mod 100 \<noteq> 0
                \<longrightarrow> a = \<lfloor>of_int balance * of_int p / (100 :: rat)\<rfloor>)"
proof -
  define y where "y = of_int balance * fl (of_int p / 100)"
  note sp = stake_product [OF assms(3-6), folded y_def]
  have F: "\<lfloor>of_int balance * of_int p / (100 :: rat)\<rfloor> = (balance * p) div 100"
    using floor_divide_of_int_eq [of "balance * p" 100, where ?'a = rat] by simp
  have "stake st balance = Inr (min \<lfloor>fl y\<rfloor> m)"
    using assms(1,2) sp(1,2,3) by (simp add: stake_def y_def)
  moreover note floor_near_multiple [OF sp(4)]
  ultimately show ?thesis unfolding F by (intro exI [of _ "\<lfloor>fl y\<rfloor>"]) simp
qed

theorem stake_near_exact_witness:
  "stake (example_settings MOST_VOTED 5 False) 100000 = Inr 5000
   \<and> exact_stake 100000 5 50000 = 5000"
  using stake_near_exact [of "example_settings MOST_VOTED 5 False" 5 50000 100000]
    eval_stake_5 [of MOST_VOTED False]
  by (simp add: exact_stake_def)

text \<open>C5 as stated fails: for balance 100 and percentage 29 the product
  \<open>100 * (29 / 100)\<close> is 28.999999999999996 as a float and the stake is 28, while
  \<open>floor(100 * 29 / 100)\<close> is 29.\<close>

theorem stake_29_percent:
  "calculate utils_spec 1 (fresh_bet (example_settings MOST_VOTED 29 False)) 100
     = Inr ((fresh_bet (example_settings MOST_VOTED 29 False))
             \<lparr>decision := Some \<lparr>choice = Some ''B'', amount = 28, d_id = Some ''y''\<rparr>\<rparr>)
   \<and> exact_stake 100 29 50000 = 29"
  by (simp add: eval_defs eval_stake_29 exact_stake_def)

subsection \<open>The amount of calculate\<close>

lemma py_float_Inr: "py_float x = Inr y \<Longrightarrow> y = fl x"
  by (simp add: py_float_def split: if_splits)

lemma py_truediv_Inr: "py_truediv a b = Inr y \<Longrightarrow> b \<noteq> 0 \<and> y = fl (of_int a / of_int b)"
  by (auto simp: py_truediv_def dest: py_float_Inr split: if_splits)

lemma int_of_float_op_Inr: "int_of_float_op x = Inr a \<Longrightarrow> a = trunc (fl x)"
  by (simp add: int_of_float_op_def split: if_splits)

lemma trunc_ge_0: "0 \<le> x \<Longrightarrow> 0 \<le> trunc x"
  by (simp add: trunc_def)

lemma stake_nonneg:
  assumes "stake st balance = Inr a" and "0 \<le> balance"
    and "percentage st = Some p" and "0 \<le> p" and "max_points st = Some m" and "0 \<le> m"
  shows "0 \<le> a"
proof -
  from assms(1,3,5) obtain q bf a0
    where q: "py_truediv p 100 = Inr q" and bf: "py_float (of_int balance) = Inr bf"
      and a0: "int_of_float_op (bf * q) = Inr a0" and a: "a = min a0 m"
    by (auto simp: stake_def bindE_eq_Inr)
  have "0 \<le> q" using py_truediv_Inr [OF q] assms(4) by (simp add: fl_nonneg)
  moreover have "0 \<le> bf" using py_float_Inr [OF bf] assms(2) by (simp add: fl_nonneg)
  ultimately have "0 \<le> fl (bf * q)" by (intro fl_nonneg) simp
  then have "0 \<le> a0" using int_of_float_op_Inr [OF a0] by (simp add: trunc_ge_0)
  then show ?thesis using a assms(6) by simp
qed

lemma stealth_nonneg:
  assumes "bindE (py_float (of_int tp)) (\<lambda>t. int_of_float_op (t - r)) = Inr a"
    and "5 \<le> tp" and "r \<le> 5"
  shows "0 \<le> a"
proof -
  from assms(1) obtain t where t: "py_float (of_int tp) = Inr t"
    and a: "int_of_float_op (t - r) = Inr a"
    by (auto simp: bindE_eq_Inr)
  have "of_int 5 \<le> fl (of_int tp)"
    using assms(2) by (intro fl_ge_int) simp_all
  then have "0 \<le> t - r" using py_float_Inr [OF t] assms(3) by simp
  then have "0 \<le> fl (t - r)" by (rule fl_nonneg)
  then show ?thesis using int_of_float_op_Inr [OF a] by (simp add: trunc_ge_0)
qed

lemma nth_err_Inr: "nth_err xs i = Inr x \<Longrightarrow> x \<in> set xs"
  by (auto simp: nth_err_def split: if_splits)

text \<open>C2 (amended). For a balance, a percentage and a max_points that are not
  negative, the amount that \<open>calculate\<close> returns is an integer \<open>\<ge> 0\<close> when stealth
  mode is off, or when no outcome's top_points is below 5, the upper end of the draw
  \<open>r\<close> of \<open>uniform(1, 5)\<close>.\<close>

theorem calculate_amount_nonneg:
  assumes "calculate u r b balance = Inr b'" and "0 \<le> balance"
    and "percentage (settings b) = Some p" and "0 \<le> p"
    and "max_points (settings b) = Some m" and "0 \<le> m" and "r \<le> 5"
    and "stealth_mode (settings b) \<noteq> Some True
         \<or> (\<forall>oc \<in> set (outcomes b). 5 \<le> o_top_points oc)"
  shows "\<exists>d. decision b' = Some d \<and> 0 \<le> amount d"
proof -
  from assms(1) obtain c where c: "make_choice b = Inr c"
    by (auto simp: calculate_def bindE_eq_Inr)
  show ?thesis
  proof (cases c)
    case None
    with assms(1) c show ?thesis by (auto simp: calculate_def)
  next
    case (Some ch)
    with assms(1) c obtain index oc a a'
      where oc: "nth_err (outcomes b) index = Inr oc"
        and a: "stake (settings b) balance = Inr a"
        and a': "(if stealth_mode (settings b) = Some True \<and> o_top_points oc \<le> a
                  then bindE (py_float (of_int (o_top_points oc))) (\<lambda>t.
                         int_of_float_op (t - r))
                  else Inr a) = Inr a'"
        and b': "b' = b\<lparr>decision :=
                      Some \<lparr>choice = Some ch, amount = a', d_id = Some (o_id oc)\<rparr>\<rparr>"
      by (auto simp: calculate_def bindE_eq_Inr)
    have a0: "0 \<le> a" using stake_nonneg [OF a assms(2-6)] .
    have "0 \<le> a'"
    proof (cases "stealth_mode (settings b) = Some True \<and> o_top_points oc \<le> a")
      case True
      with assms(8) nth_err_Inr [OF oc] have "5 \<le> o_top_points oc" by auto
      with a' True show ?thesis using stealth_nonneg [OF _ _ assms(7)] by simp
    next
      case False
      with a' a0 show ?thesis by auto
    qed
    then show ?thesis by (simp add: b')
  qed
qed

lemma eval_example_stealth:
  "calculate utils_spec (3 / 2) (example_bet (example_settings HIGH_ODDS 5 True) None) 100000
     = Inr ((example_bet (example_settings HIGH_ODDS 5 True) None)
             \<lparr>decision := Some \<lparr>choice = Some ''A'', amount = 3998, d_id = Some ''x''\<rparr>\<rparr>)"
  by (simp add: eval_defs eval_stake_5 eval_float_4000 eval_stealth_4000)

theorem calculate_amount_nonneg_witness:
  "calculate utils_spec (3 / 2) (example_bet (example_settings HIGH_ODDS 5 True) None) 100000
     = Inr ((example_bet (example_settings HIGH_ODDS 5 True) None)
             \<lparr>decision := Some \<lparr>choice = Some ''A'', amount = 3998, d_id = Some ''x''\<rparr>\<rparr>)
   \<and> 5 \<le> o_top_points (example_outcomes ! 0) \<and> 5 \<le> o_top_points (example_outcomes ! 1)
   \<and> (0::int) \<le> 3998"
  using calculate_amount_nonneg [OF eval_example_stealth, of 5 50000]
    eval_example_stealth
  by (simp add: example_bet_def example_outcomes_def)

text \<open>C2 as stated fails: with stealth mode on and top_points 0 on the chosen outcome
  the stake 5000 is replaced by \<open>int(0 - r)\<close>, which is \<open>- 1\<close> for the draw \<open>r = 1\<close>.\<close>

theorem stealth_amount_negative:
  "calculate utils_spec 1 (fresh_bet (example_settings MOST_VOTED 5 True)) 100000
     = Inr ((fresh_bet (example_settings MOST_VOTED 5 True))
             \<lparr>decision := Some \<lparr>choice = Some ''B'', amount = - 1, d_id = Some ''y''\<rparr>\<rparr>)"
  by (simp add: eval_defs eval_stake_5 eval_float_0 eval_stealth_0)

text \<open>C4 (amended). On a Bet built from two payload outcomes without users, before
  any \<open>update_outcomes\<close>, \<open>calculate\<close> chooses "B" for every strategy, all compared
  metrics being equal, and with stealth mode off the amount is the regular stake
  \<open>min(int(balance * (percentage / 100)), max_points)\<close>.\<close>

theorem calculate_before_update:
  assumes "strategy st = Some s" and "stealth_mode st \<noteq> Some True"
    and "stake st balance = Inr a"
    and "s = SMART \<longrightarrow> percentage_gap st \<noteq> None"
    and "char_decision_as_index u (Some ''B'') = Inr 1"
    and "s_total_users s0 = 0" and "s_total_users s1 = 0"
  shows "calculate u r (Bet_init [s0, s1] st) balance
     = Inr ((Bet_init [s0, s1] st)
             \<lparr>decision := Some \<lparr>choice = Some ''B'', amount = a, d_id = Some (s_id s1)\<rparr>\<rparr>)"
proof -
  have rc: "return_choice (Bet_init [s0, s1] st) k = Inr ''B''"
    if "k = TOTAL_USERS \<or> k = ODDS \<or> k = ODDS_PERCENTAGE" for k
    using that assms(6,7)
    by (auto simp: return_choice_def Bet_init_def clear_outcome_def getitem_def OutcomeKeys_defs)
  have "make_choice (Bet_init [s0, s1] st) = Inr (Some ''B'')"
  proof (cases s)
    case SMART
    with assms(4) obtain gap where "percentage_gap st = Some gap" by auto
    moreover have "settings (Bet_init [s0, s1] st) = st" by (simp add: Bet_init_def)
    moreover have "getitem (clear_outcome x) (Some PERCENTAGE_USERS) = Inr 0" for x
      by (simp add: getitem_def clear_outcome_def OutcomeKeys_defs)
    moreover have "outcomes (Bet_init [s0, s1] st) = [clear_outcome s0, clear_outcome s1]"
      by (simp add: Bet_init_def)
    ultimately show ?thesis
      using SMART assms(1) rc by (simp add: make_choice_def)
  qed (use assms(1) rc in \<open>simp_all add: make_choice_def Bet_init_def\<close>)
  then show ?thesis
    using assms(2,3,5)
    by (simp add: calculate_def Bet_init_def clear_outcome_def)
qed

theorem calculate_before_update_witness:
  "calculate utils_spec 1 (fresh_bet (example_settings PERCENTAGE 5 False)) 100000
     = Inr ((fresh_bet (example_settings PERCENTAGE 5 False))
             \<lparr>decision := Some \<lparr>choice = Some ''B'', amount = 5000, d_id = Some ''y''\<rparr>\<rparr>)"
  using calculate_before_update [of "example_settings PERCENTAGE 5 False" PERCENTAGE
      100000 5000 utils_spec "payload ''x'' 0 0 []" "payload ''y'' 0 0 []" 1]
  by (simp add: eval_stake_5 fresh_bet_def utils_spec_def payload_def)

text \<open>C4 as stated fails: before any \<open>update_outcomes\<close>, with balance 100000,
  percentage 5 and max_points 50000, the amount is 5000.\<close>

theorem fresh_bet_stakes:
  "calculate utils_spec 1 (fresh_bet (example_settings SMART 5 False)) 100000
     = Inr ((fresh_bet (example_settings SMART 5 False))
             \<lparr>decision := Some \<lparr>choice = Some ''B'', amount = 5000, d_id = Some ''y''\<rparr>\<rparr>)"
  by (simp add: eval_defs eval_stake_5 eval_difference_0)

subsection \<open>update_outcomes\<close>

lemma derived_ingest_one: "derived (ingest_one oc s) = derived oc"
  by (simp add: ingest_one_def derived_def Let_def)

lemma map_update_same: "f x = f (xs ! i) \<Longrightarrow> map f (xs[i := x]) = map f xs"
  by (cases "i < length xs") (simp_all add: map_update list_update_same_conv list_update_beyond)

lemma ingest_Inr:
  "ingest snaps idxs os = Inr os' \<Longrightarrow>
   length os' = length os \<and> map derived os' = map derived os"
proof (induction idxs arbitrary: os)
  case Nil
  then show ?case by simp
next
  case (Cons index rest)
  from Cons.prems obtain s
    where "ingest snaps rest (os[index := ingest_one (os ! index) s]) = Inr os'"
    by (auto simp: bindE_eq_Inr)
  from Cons.IH [OF this] show ?case
    by (simp add: map_update_same derived_ingest_one)
qed






lemma odds_ge_1:
  assumes "py_truediv tp n = Inr od" and "0 < n" and "n \<le> tp"
  shows "1 \<le> od"
proof -
  have "(of_int n :: rat) \<le> of_int tp" using assms(3) by (simp only: of_int_le_iff)
  then have "of_int 1 \<le> (of_int tp :: rat) / of_int n"
    using assms(2) by (simp add: pos_le_divide_eq)
  then have "of_int 1 \<le> fl (of_int tp / of_int n)" by (intro fl_ge_int) simp_all
  then show ?thesis using py_truediv_Inr [OF assms(1)] by simp
qed





lemma fl_error_le:
  assumes "\<bar>x\<bar> \<le> M" and "1 \<le> M"
  shows "\<bar>fl x - x\<bar> \<le> M / 2 ^ 53"
proof -
  have "(2::rat) powi (- 1022) \<le> 1"
    using power_int_increasing [of "- 1022" 0 "2::rat"] by simp
  with assms have "max \<bar>x\<bar> (2 powi (- 1022)) \<le> M" by simp
  then have "max \<bar>x\<bar> (2 powi (- 1022)) / 2 ^ 53 \<le> M / 2 ^ 53"
    by (intro divide_right_mono) simp_all
  with fl_error [of x] show ?thesis by linarith
qed

lemma py_float_div_Inr: "py_float_div x y = Inr z \<Longrightarrow> y \<noteq> 0 \<and> z = fl (x / y)"
  by (auto simp: py_float_div_def dest: py_float_Inr split: if_splits)

lemma round_percentage:
  assumes fr: "\<forall>x. \<bar>x\<bar> \<le> K \<longrightarrow> \<bar>fr x - x\<bar> \<le> \<delta>" and K: "256 \<le> K"
    and n: "0 \<le> n" "n \<le> T" "0 < T"
    and p: "py_truediv (100 * n) T = Inr p"
  shows "\<bar>fr p - of_int (100 * n) / of_int T\<bar> \<le> \<delta> + 1 / 2 ^ 46"
proof -
  define q :: rat where "q = of_int (100 * n) / of_int T"
  have T: "(0::rat) < of_int T" using n(3) by simp
  have "(of_int n :: rat) \<le> of_int T" using n(2) by (simp only: of_int_le_iff)
  then have q100: "q \<le> 100" using T by (simp add: q_def pos_divide_le_eq)
  have q0: "0 \<le> q" using n(1) T by (simp add: q_def)
  have pq: "p = fl q" using py_truediv_Inr [OF p] by (simp add: q_def)
  have "\<bar>fl q - q\<bar> \<le> 128 / 2 ^ 53"
    using q0 q100 by (intro fl_error_le) simp_all
  then have e: "\<bar>p - q\<bar> \<le> 1 / 2 ^ 46" by (simp add: pq)
  have "(1::rat) / 2 ^ 46 \<le> 1" by simp
  with e q0 q100 K have "\<bar>p\<bar> \<le> K" by linarith
  with fr have "\<bar>fr p - p\<bar> \<le> \<delta>" by simp
  with e show ?thesis unfolding q_def by linarith
qed

lemma round_odds:
  assumes fr: "\<forall>x. \<bar>x\<bar> \<le> K \<longrightarrow> \<bar>fr x - x\<bar> \<le> \<delta>" and K: "2 * of_int T \<le> K"
    and n: "0 < n" "n \<le> T"
    and od: "py_truediv T n = Inr od"
  shows "\<bar>fr od * of_int n - of_int T\<bar> \<le> \<delta> * of_int n + of_int T / 2 ^ 53"
proof -
  define Q :: rat where "Q = of_int T / of_int n"
  have np: "(0::rat) < of_int n" using n(1) by simp
  have nT: "(of_int n :: rat) \<le> of_int T" using n(2) by (simp only: of_int_le_iff)
  have Q1: "1 \<le> Q" using np nT by (simp add: Q_def pos_le_divide_eq)
  have n1: "(1::rat) \<le> of_int n" using n(1) by simp
  have QT: "Q \<le> of_int T"
  proof -
    have "of_int T * 1 \<le> (of_int T :: rat) * of_int n"
      using n1 np nT by (intro mult_left_mono) simp_all
    then show ?thesis using np by (simp add: Q_def pos_divide_le_eq)
  qed
  have odQ: "od = fl Q" using py_truediv_Inr [OF od] by (simp add: Q_def)
  have e: "\<bar>od - Q\<bar> \<le> Q / 2 ^ 53"
    unfolding odQ using Q1 by (intro fl_error_le) simp_all
  have "Q / 2 ^ 53 \<le> Q" using Q1 by (simp add: field_simps)
  with e Q1 QT K have "\<bar>od\<bar> \<le> K" by linarith
  with fr have "\<bar>fr od - od\<bar> \<le> \<delta>" by simp
  with e have "\<bar>fr od - Q\<bar> \<le> \<delta> + Q / 2 ^ 53" by linarith
  then have "\<bar>fr od - Q\<bar> * of_int n \<le> (\<delta> + Q / 2 ^ 53) * of_int n"
    using np by (intro mult_right_mono) simp_all
  moreover have "\<bar>fr od - Q\<bar> * of_int n = \<bar>fr od * of_int n - of_int T\<bar>"
  proof -
    have "fr od * of_int n - of_int T = (fr od - Q) * of_int n"
      using np by (simp add: Q_def left_diff_distrib)
    then show ?thesis using np by (simp add: abs_mult)
  qed
  moreover have "(\<delta> + Q / 2 ^ 53) * of_int n = \<delta> * of_int n + of_int T / 2 ^ 53"
    using np by (simp add: Q_def distrib_right)
  ultimately show ?thesis by simp
qed

lemma round_odds_percentage:
  assumes fr: "\<forall>x. \<bar>x\<bar> \<le> K \<longrightarrow> \<bar>fr x - x\<bar> \<le> \<delta>" and K: "256 \<le> K" "2 * of_int T \<le> K"
    and d: "\<delta> \<le> 1 / 2"
    and n: "0 < n" "n \<le> T"
    and od: "py_truediv T n = Inr od"
    and op: "py_float_div 100 (fr od) = Inr op"
  shows "\<bar>fr op - 100 / fr od\<bar> \<le> \<delta> + 1 / 2 ^ 45"
proof -
  define Q :: rat where "Q = of_int T / of_int n"
  have np: "(0::rat) < of_int n" using n(1) by simp
  have nT: "(of_int n :: rat) \<le> of_int T" using n(2) by (simp only: of_int_le_iff)
  have Q1: "1 \<le> Q" using np nT by (simp add: Q_def pos_le_divide_eq)
  have n1: "(1::rat) \<le> of_int n" using n(1) by simp
  have QT: "Q \<le> of_int T"
  proof -
    have "of_int T * 1 \<le> (of_int T :: rat) * of_int n"
      using n1 np nT by (intro mult_left_mono) simp_all
    then show ?thesis using np by (simp add: Q_def pos_divide_le_eq)
  qed
  have od1: "1 \<le> od" by (rule odds_ge_1 [OF od n])
  have odQ: "od = fl Q" using py_truediv_Inr [OF od] by (simp add: Q_def)
  have e: "\<bar>od - Q\<bar> \<le> Q / 2 ^ 53"
    unfolding odQ using Q1 by (intro fl_error_le) simp_all
  have "Q / 2 ^ 53 \<le> Q" using Q1 by (simp add: field_simps)
  with e Q1 QT K(2) have "\<bar>od\<bar> \<le> K" by linarith
  with fr have "\<bar>fr od - od\<bar> \<le> \<delta>" by simp
  with od1 d have half: "1 / 2 \<le> fr od" by linarith
  define R where "R = 100 / fr od"
  have R0: "0 \<le> R" using half by (simp add: R_def)
  have R200: "R \<le> 200" using half by (simp add: R_def pos_divide_le_eq)
  have opR: "op = fl R" using py_float_div_Inr [OF op] by (simp add: R_def)
  have "\<bar>fl R - R\<bar> \<le> 256 / 2 ^ 53"
    using R0 R200 by (intro fl_error_le) simp_all
  then have e2: "\<bar>op - R\<bar> \<le> 1 / 2 ^ 45" by (simp add: opR)
  have "(1::rat) / 2 ^ 45 \<le> 1" by simp
  with e2 R0 R200 K(1) have "\<bar>op\<bar> \<le> K" by linarith
  with fr have "\<bar>fr op - op\<bar> \<le> \<delta>" by simp
  with e2 show ?thesis unfolding R_def by linarith
qed


lemma float_round_spec_error:
  assumes "\<bar>x\<bar> \<le> 2 ^ 20"
  shows "\<bar>float_round utils_spec x - x\<bar> \<le> 1 / 100"
proof -
  define y :: rat where "y = of_int (round_even (x * 100)) / 100"
  have "\<bar>of_int (round_even (x * 100)) - x * 100\<bar> \<le> 1 / 2" by (rule round_even_bounds)
  then have yx: "\<bar>y - x\<bar> \<le> 1 / 200" by (simp add: y_def abs_le_iff field_simps)
  moreover have "(2::rat) ^ 20 + 1 / 200 \<le> 2 ^ 21" by simp
  ultimately have "\<bar>y\<bar> \<le> 2 ^ 21" using assms by linarith
  then have "\<bar>fl y - y\<bar> \<le> 2 ^ 21 / 2 ^ 53" by (intro fl_error_le) simp_all
  then have "\<bar>fl y - y\<bar> \<le> 1 / 200" by simp
  with yx have "\<bar>fl y - x\<bar> \<le> 1 / 100" by linarith
  then show ?thesis by (simp add: utils_spec_def y_def)
qed

lemma eval_update_example:
  "update_outcomes utils_spec (fresh_bet st)
     [payload ''x'' 10 1000 [500, 4000, 20], payload ''y'' 90 9000 [7000]]
   = Inr (example_bet st None)"
  by code_simp



lemma derive_two:
  assumes "derive u tu tp [0..<2] [a0, a1] = Inr os'"
  shows "\<exists>p0 od0 op0 p1 od1 op1.
      py_truediv (100 * o_total_users a0) tu = Inr p0
    \<and> py_truediv tp (o_total_points a0) = Inr od0
    \<and> py_float_div 100 (float_round u od0) = Inr op0
    \<and> py_truediv (100 * o_total_users a1) tu = Inr p1
    \<and> py_truediv tp (o_total_points a1) = Inr od1
    \<and> py_float_div 100 (float_round u od1) = Inr op1
    \<and> os' = [a0\<lparr>o_percentage_users := float_round u p0, o_odds := float_round u od0,
                 o_odds_percentage := float_round u op0\<rparr>,
              a1\<lparr>o_percentage_users := float_round u p1, o_odds := float_round u od1,
                 o_odds_percentage := float_round u op1\<rparr>]"
proof -
  have "[0..<2] = [0, Suc 0]" by (simp add: upt_rec)
  with assms show ?thesis by (auto simp: bindE_eq_Inr)
qed

lemma length_two: "length xs = 2 \<Longrightarrow> xs = [xs ! 0, xs ! 1]"
  by (cases xs; cases "tl xs") auto

text \<open>C8. After an \<open>update_outcomes\<close> on a Bet with two outcomes on which the guard
  holds, with user counts that are not negative and a \<open>float_round\<close> that stays within
  \<open>\<delta> \<le> 1 / 2\<close> of its argument on the range of the values met: the two
  percentage_users sum to 100 within \<open>2 * \<delta>\<close>, odds times the points of the outcome
  is within \<open>\<delta>\<close> times those points of the total points, and odds_percentage is
  within \<open>\<delta>\<close> of \<open>100 / odds\<close>, each up to the rounding of the binary64
  division.\<close>

theorem update_outcomes_rounding:
  assumes upd: "update_outcomes u b snaps = Inr b'" and len: "length (outcomes b) = 2"
    and guard: "0 < total_users b'" "0 < o_total_points (outcomes b' ! 0)"
      "0 < o_total_points (outcomes b' ! 1)"
    and users: "0 \<le> o_total_users (outcomes b' ! 0)" "0 \<le> o_total_users (outcomes b' ! 1)"
    and fr: "\<forall>x. \<bar>x\<bar> \<le> K \<longrightarrow> \<bar>float_round u x - x\<bar> \<le> \<delta>"
    and d: "\<delta> \<le> 1 / 2" and K: "256 \<le> K" "2 * of_int (total_points b') \<le> K"
  shows "\<bar>o_percentage_users (outcomes b' ! 0) + o_percentage_users (outcomes b' ! 1) - 100\<bar>
           \<le> 2 * \<delta> + 1 / 2 ^ 45
    \<and> \<bar>o_odds (outcomes b' ! 0) * of_int (o_total_points (outcomes b' ! 0))
         - of_int (total_points b')\<bar>
           \<le> \<delta> * of_int (o_total_points (outcomes b' ! 0)) + of_int (total_points b') / 2 ^ 53
    \<and> \<bar>o_odds (outcomes b' ! 1) * of_int (o_total_points (outcomes b' ! 1))
         - of_int (total_points b')\<bar>
           \<le> \<delta> * of_int (o_total_points (outcomes b' ! 1)) + of_int (total_points b') / 2 ^ 53
    \<and> \<bar>o_odds_percentage (outcomes b' ! 0) - 100 / o_odds (outcomes b' ! 0)\<bar>
           \<le> \<delta> + 1 / 2 ^ 45
    \<and> \<bar>o_odds_percentage (outcomes b' ! 1) - 100 / o_odds (outcomes b' ! 1)\<bar>
           \<le> \<delta> + 1 / 2 ^ 45"
proof -
  from upd obtain os where ing: "ingest snaps [0..<length (outcomes b)] (outcomes b) = Inr os"
    by (auto simp: update_outcomes_def bindE_eq_Inr)
  have l2: "length os = 2" using ingest_Inr [OF ing] len by simp
  define a0 where "a0 = os ! 0"
  define a1 where "a1 = os ! 1"
  have os: "os = [a0, a1]" using length_two [OF l2] by (simp add: a0_def a1_def)
  define tu where "tu = o_total_users a0 + o_total_users a1"
  define tp where "tp = o_total_points a0 + o_total_points a1"
  define g where "g \<longleftrightarrow> 0 < tu \<and> 0 < o_total_points a0 \<and> 0 < o_total_points a1"
  have "update_outcomes u b snaps =
      bindE (if g then derive u tu tp [0..<2] os else Inr os) (\<lambda>os'.
        Inr (b\<lparr>outcomes := os', total_users := tu, total_points := tp\<rparr>))"
    using ing l2
    by (simp add: update_outcomes_def Let_def tu_def tp_def g_def a0_def a1_def)
  with upd have eq: "bindE (if g then derive u tu tp [0..<2] os else Inr os)
      (\<lambda>os'. Inr (b\<lparr>outcomes := os', total_users := tu, total_points := tp\<rparr>)) = Inr b'"
    by simp
  have g: g
  proof (rule ccontr)
    assume "\<not> g"
    with eq have "b' = b\<lparr>outcomes := os, total_users := tu, total_points := tp\<rparr>"
      by simp
    with guard \<open>\<not> g\<close> show False by (simp add: g_def a0_def a1_def)
  qed
  with eq obtain os' where der0: "derive u tu tp [0..<2] os = Inr os'"
    and b': "b' = b\<lparr>outcomes := os', total_users := tu, total_points := tp\<rparr>"
    by (auto simp: bindE_eq_Inr)
  have der: "derive u tu tp [0..<2] [a0, a1] = Inr os'"
    using der0 os by simp
  from derive_two [OF der] obtain p0 od0 op0 p1 od1 op1
    where p0: "py_truediv (100 * o_total_users a0) tu = Inr p0"
      and od0: "py_truediv tp (o_total_points a0) = Inr od0"
      and op0: "py_float_div 100 (float_round u od0) = Inr op0"
      and p1: "py_truediv (100 * o_total_users a1) tu = Inr p1"
      and od1: "py_truediv tp (o_total_points a1) = Inr od1"
      and op1: "py_float_div 100 (float_round u od1) = Inr op1"
      and os': "os' = [a0\<lparr>o_percentage_users := float_round u p0,
                 o_odds := float_round u od0, o_odds_percentage := float_round u op0\<rparr>,
              a1\<lparr>o_percentage_users := float_round u p1, o_odds := float_round u od1,
                 o_odds_percentage := float_round u op1\<rparr>]"
    by blast
  have tu0: "0 < tu" and n0: "0 < o_total_points a0" and n1: "0 < o_total_points a1"
    using g by (simp_all add: g_def)
  have u0: "0 \<le> o_total_users a0" and u1: "0 \<le> o_total_users a1"
    using users by (simp_all add: b' os')
  have KT: "2 * of_int tp \<le> K" using K(2) by (simp add: b')
  have le0: "o_total_points a0 \<le> tp" and le1: "o_total_points a1 \<le> tp"
    using n0 n1 by (simp_all add: tp_def)
  have ule0: "o_total_users a0 \<le> tu" and ule1: "o_total_users a1 \<le> tu"
    using u0 u1 by (simp_all add: tu_def)
  note e0 = round_percentage [OF fr K(1) u0 ule0 tu0 p0]
  note e1 = round_percentage [OF fr K(1) u1 ule1 tu0 p1]
  have "(of_int (100 * o_total_users a0) :: rat) / of_int tu
      + of_int (100 * o_total_users a1) / of_int tu = 100"
  proof -
    have "(of_int tu :: rat) \<noteq> 0" using tu0 by simp
    moreover have "(of_int (100 * o_total_users a0) :: rat) + of_int (100 * o_total_users a1)
        = 100 * of_int tu" by (simp add: tu_def)
    ultimately show ?thesis
      by (simp add: add_divide_distrib [symmetric] del: of_int_mult of_int_add)
  qed
  with e0 e1 have
    "\<bar>float_round u p0 + float_round u p1 - 100\<bar> \<le> 2 * \<delta> + 1 / 2 ^ 45"
    by (simp add: abs_le_iff)
  moreover note round_odds [OF fr KT n0 le0 od0] round_odds [OF fr KT n1 le1 od1]
    round_odds_percentage [OF fr K(1) KT d n0 le0 od0 op0]
    round_odds_percentage [OF fr K(1) KT d n1 le1 od1 op1]
  ultimately show ?thesis by (simp add: b' os')
qed

theorem update_outcomes_rounding_witness:
  "update_outcomes utils_spec (fresh_bet (example_settings SMART 5 False))
     [payload ''x'' 10 1000 [500, 4000, 20], payload ''y'' 90 9000 [7000]]
   = Inr (example_bet (example_settings SMART 5 False) None)
   \<and> \<bar>o_percentage_users (example_outcomes ! 0) + o_percentage_users (example_outcomes ! 1)
        - 100\<bar> \<le> 2 * (1 / 100) + 1 / 2 ^ 45
   \<and> \<bar>o_odds (example_outcomes ! 1) * 9000 - 10000\<bar> \<le> 1 / 100 * 9000 + 10000 / 2 ^ 53
   \<and> \<bar>o_odds_percentage (example_outcomes ! 1) - 100 / o_odds (example_outcomes ! 1)\<bar>
        \<le> 1 / 100 + 1 / 2 ^ 45"
  using update_outcomes_rounding [OF eval_update_example
      [of "example_settings SMART 5 False"], of "2 ^ 20" "1 / 100"]
    eval_update_example [of "example_settings SMART 5 False"]
  by (simp add: float_round_spec_error fresh_bet_def Bet_init_def example_bet_def
      example_outcomes_def)

end
